theory Spec2Isabelle
  imports Main "HOL-Library.Multiset"
begin

section \<open>Data model (types.ts)\<close>

text \<open>
  Strings are byte lists holding the UTF-8 encoding of the source's strings; the only
  non-ASCII characters of the program occur in fixed literals, written out byte by byte.
\<close>

datatype RecordType = A | AAAA | CNAME | MX | NS | TXT | SOA | CAA | SRV

definition RECORD_TYPES :: "RecordType list" where
  "RECORD_TYPES = [A, AAAA, CNAME, MX, NS, TXT, SOA, CAA, SRV]"

text \<open>The name of a record type, as it appears in template literals.\<close>

fun type_name :: "RecordType \<Rightarrow> string" where
  "type_name A = ''A''"
| "type_name AAAA = ''AAAA''"
| "type_name CNAME = ''CNAME''"
| "type_name MX = ''MX''"
| "type_name NS = ''NS''"
| "type_name TXT = ''TXT''"
| "type_name SOA = ''SOA''"
| "type_name CAA = ''CAA''"
| "type_name SRV = ''SRV''"

text \<open>\<open>interface DnsResult\<close>: the optional \<open>error\<close> key is \<open>None\<close> when absent.\<close>

record DnsResult =
  type :: RecordType
  records :: "string list"
  error :: "string option"

section \<open>The platform resolver (node:dns/promises) as seen by dns.ts\<close>

text \<open>
  The answer shapes of the nine resolver methods. Numeric fields are the integer values
  of the DNS answer.
\<close>

record MxRecord =
  priority :: int
  exchange :: string

record SoaRecord =
  nsname :: string
  hostmaster :: string
  serial :: int
  refresh :: int
  retry :: int
  expire :: int
  minttl :: int

record CaaRecord =
  critical :: int
  issue :: "string option"
  issuewild :: "string option"
  iodef :: "string option"
  contactemail :: "string option"
  contactphone :: "string option"

record SrvRecord =
  priority :: int
  weight :: int
  port :: int
  name :: string

text \<open>
  The value a failed resolver call is rejected with, read by the handler through the cast
  \<open>err as NodeJS.ErrnoException\<close>: an error object, whose \<open>code\<close> and \<open>message\<close>
  may be undefined (\<open>None\<close>). The resolver never rejects with a nullish value.
\<close>

record ErrnoException =
  code :: "string option"
  message :: "string option"

text \<open>
  The outcome of a promise: \<open>Inr v\<close> when fulfilled with \<open>v\<close>, \<open>Inl reason\<close> when
  rejected. A rejection reason is any value; \<open>None\<close> is a nullish one.
\<close>

type_synonym 'a promise = "ErrnoException option + 'a"

text \<open>The \<open>dns\<close> module: one method per record type, each from the domain to an outcome.\<close>

record Resolver =
  resolve4 :: "string \<Rightarrow> ErrnoException + string list"
  resolve6 :: "string \<Rightarrow> ErrnoException + string list"
  resolveCname :: "string \<Rightarrow> ErrnoException + string list"
  resolveMx :: "string \<Rightarrow> ErrnoException + MxRecord list"
  resolveNs :: "string \<Rightarrow> ErrnoException + string list"
  resolveTxt :: "string \<Rightarrow> ErrnoException + string list list"
  resolveSoa :: "string \<Rightarrow> ErrnoException + SoaRecord"
  resolveCaa :: "string \<Rightarrow> ErrnoException + CaaRecord list"
  resolveSrv :: "string \<Rightarrow> ErrnoException + SrvRecord list"

text \<open>
  Every call of a resolver method is recorded: the log holds the method's name and the
  domain it was called with, in call order.
\<close>

type_synonym call = "string \<times> string"

definition await_call ::
  "string \<Rightarrow> (string \<Rightarrow> ErrnoException + 'a) \<Rightarrow> string \<Rightarrow> call list
    \<Rightarrow> (ErrnoException + 'a) \<times> call list" where
  "await_call method f domain log = (f domain, log @ [(method, domain)])"

section \<open>Built-ins of the language used by dns.ts\<close>

text \<open>
  Decimal rendering of a number in a template literal, for the integer values that the
  fields of a DNS answer hold.
\<close>

definition digit_char :: "nat \<Rightarrow> char" where
  "digit_char d = char_of (of_char CHR ''0'' + d)"

fun decimal_digits :: "nat \<Rightarrow> string \<Rightarrow> string" where
  "decimal_digits n acc =
     (if n < 10 then digit_char n # acc
      else decimal_digits (n div 10) (digit_char (n mod 10) # acc))"

declare decimal_digits.simps [simp del]

definition string_of_number :: "int \<Rightarrow> string" where
  "string_of_number i =
     (if i < 0 then CHR ''-'' # decimal_digits (nat (- i)) []
      else decimal_digits (nat i) [])"

text \<open>
  What "rendered in decimal" says, apart from the function above: the text \<open>s\<close> is the
  decimal numeral of \<open>n\<close> when it is a non-empty string of the digits 0 to 9, without a
  leading zero unless it is \<open>0\<close> itself, whose value in base ten is \<open>n\<close>; the decimal
  text of a negative integer is a minus sign before the numeral of its magnitude.
\<close>

definition decimal_value :: "string \<Rightarrow> nat" where
  "decimal_value s = foldl (\<lambda>acc c. 10 * acc + (of_char c - 48)) 0 s"

definition decimal_numeral :: "string \<Rightarrow> nat \<Rightarrow> bool" where
  "decimal_numeral s n =
     (s \<noteq> [] \<and> list_all (\<lambda>c. c \<in> set ''0123456789'') s
      \<and> (hd s \<noteq> CHR ''0'' \<or> s = ''0'') \<and> decimal_value s = n)"

definition decimal_of :: "string \<Rightarrow> int \<Rightarrow> bool" where
  "decimal_of s i =
     (if i < 0 then (case s of [] \<Rightarrow> False | c # d \<Rightarrow> c = CHR ''-'' \<and> decimal_numeral d (nat (- i)))
      else decimal_numeral s (nat i))"

text \<open>\<open>Array.prototype.join\<close>.\<close>

fun js_join :: "string \<Rightarrow> string list \<Rightarrow> string" where
  "js_join sep [] = []"
| "js_join sep [x] = x"
| "js_join sep (x # y # ys) = x @ sep @ js_join sep (y # ys)"

text \<open>
  \<open>Array.prototype.sort\<close> with a comparator: a stable sort that puts \<open>a\<close> before
  \<open>b\<close> when \<open>cmp a b < 0\<close> and keeps the order of the two when \<open>cmp a b = 0\<close>.
  Insertion from the right end is one such sort.
\<close>

fun sort_insert :: "('a \<Rightarrow> 'a \<Rightarrow> int) \<Rightarrow> 'a \<Rightarrow> 'a list \<Rightarrow> 'a list" where
  "sort_insert cmp x [] = [x]"
| "sort_insert cmp x (y # ys) =
     (if cmp x y \<le> 0 then x # y # ys else y # sort_insert cmp x ys)"

definition js_sort :: "('a \<Rightarrow> 'a \<Rightarrow> int) \<Rightarrow> 'a list \<Rightarrow> 'a list" where
  "js_sort cmp xs = foldr (sort_insert cmp) xs []"

section \<open>resolveType (dns.ts)\<close>

text \<open>The em dash of the null-MX annotation, in UTF-8.\<close>

definition em_dash :: string where
  "em_dash = [CHR 0xE2, CHR 0x80, CHR 0x94]"

definition mx_compare :: "MxRecord \<Rightarrow> MxRecord \<Rightarrow> int" where
  "mx_compare a b = MxRecord.priority a - MxRecord.priority b"

definition render_mx :: "MxRecord \<Rightarrow> string" where
  "render_mx r =
     (if MxRecord.priority r = 0 \<and> exchange r = ''.''
      then string_of_number (MxRecord.priority r) @ '' . (null MX '' @ em_dash
             @ '' domain does not accept mail)''
      else string_of_number (MxRecord.priority r) @ '' '' @ exchange r)"

definition render_soa :: "SoaRecord \<Rightarrow> string list" where
  "render_soa record =
     [''Primary NS: '' @ nsname record,
      ''Hostmaster: '' @ hostmaster record,
      ''Serial: '' @ string_of_number (serial record),
      ''Refresh: '' @ string_of_number (refresh record) @ ''s'',
      ''Retry: '' @ string_of_number (retry record) @ ''s'',
      ''Expire: '' @ string_of_number (expire record) @ ''s'',
      ''Min TTL: '' @ string_of_number (minttl record) @ ''s'']"

definition caa_flags :: "CaaRecord \<Rightarrow> string" where
  "caa_flags r = (if critical r \<noteq> 0 then ''128'' else ''0'')"

definition caa_tag :: "CaaRecord \<Rightarrow> string" where
  "caa_tag r =
     (if issue r \<noteq> None then ''issue''
      else if issuewild r \<noteq> None then ''issuewild''
      else ''iodef'')"

definition caa_value :: "CaaRecord \<Rightarrow> string" where
  "caa_value r =
     (case issue r of Some v \<Rightarrow> v
      | None \<Rightarrow> (case issuewild r of Some v \<Rightarrow> v
        | None \<Rightarrow> (case iodef r of Some v \<Rightarrow> v
          | None \<Rightarrow> ''unknown'')))"

definition render_caa :: "CaaRecord \<Rightarrow> string" where
  "render_caa r = caa_flags r @ '' '' @ caa_tag r @ '' '' @ caa_value r"

definition render_srv :: "SrvRecord \<Rightarrow> string" where
  "render_srv r =
     string_of_number (SrvRecord.priority r) @ '' '' @ string_of_number (weight r)
       @ '' '' @ string_of_number (port r) @ '' '' @ name r"

text \<open>A result without the \<open>error\<close> key.\<close>

definition ok :: "RecordType \<Rightarrow> string list \<Rightarrow> DnsResult" where
  "ok t rs = \<lparr>type = t, records = rs, error = None\<rparr>"

text \<open>
  The body of the \<open>try\<close>: one resolver call, then the normalisation of its answer. A
  rejected call leaves the body with the thrown value (\<open>Inl\<close>).
\<close>

fun try_block ::
  "Resolver \<Rightarrow> string \<Rightarrow> RecordType \<Rightarrow> call list
    \<Rightarrow> (ErrnoException + DnsResult) \<times> call list" where
  "try_block dns domain A log =
     (case await_call ''resolve4'' (resolve4 dns) domain log of
        (Inl err, log') \<Rightarrow> (Inl err, log')
      | (Inr rs, log') \<Rightarrow> (Inr (ok A rs), log'))"
| "try_block dns domain AAAA log =
     (case await_call ''resolve6'' (resolve6 dns) domain log of
        (Inl err, log') \<Rightarrow> (Inl err, log')
      | (Inr rs, log') \<Rightarrow> (Inr (ok AAAA rs), log'))"
| "try_block dns domain CNAME log =
     (case await_call ''resolveCname'' (resolveCname dns) domain log of
        (Inl err, log') \<Rightarrow> (Inl err, log')
      | (Inr rs, log') \<Rightarrow> (Inr (ok CNAME rs), log'))"
| "try_block dns domain MX log =
     (case await_call ''resolveMx'' (resolveMx dns) domain log of
        (Inl err, log') \<Rightarrow> (Inl err, log')
      | (Inr rs, log') \<Rightarrow> (Inr (ok MX (map render_mx (js_sort mx_compare rs))), log'))"
| "try_block dns domain NS log =
     (case await_call ''resolveNs'' (resolveNs dns) domain log of
        (Inl err, log') \<Rightarrow> (Inl err, log')
      | (Inr rs, log') \<Rightarrow> (Inr (ok NS rs), log'))"
| "try_block dns domain TXT log =
     (case await_call ''resolveTxt'' (resolveTxt dns) domain log of
        (Inl err, log') \<Rightarrow> (Inl err, log')
      | (Inr rs, log') \<Rightarrow> (Inr (ok TXT (map (js_join []) rs)), log'))"
| "try_block dns domain SOA log =
     (case await_call ''resolveSoa'' (resolveSoa dns) domain log of
        (Inl err, log') \<Rightarrow> (Inl err, log')
      | (Inr record, log') \<Rightarrow> (Inr (ok SOA (render_soa record)), log'))"
| "try_block dns domain CAA log =
     (case await_call ''resolveCaa'' (resolveCaa dns) domain log of
        (Inl err, log') \<Rightarrow> (Inl err, log')
      | (Inr rs, log') \<Rightarrow> (Inr (ok CAA (map render_caa rs)), log'))"
| "try_block dns domain SRV log =
     (case await_call ''resolveSrv'' (resolveSrv dns) domain log of
        (Inl err, log') \<Rightarrow> (Inl err, log')
      | (Inr rs, log') \<Rightarrow> (Inr (ok SRV (map render_srv rs)), log'))"

text \<open>
  The \<open>catch\<close> handler. \<open>error.message || fallback\<close> takes the fallback for an
  undefined and for an empty message.
\<close>

definition catch_block :: "RecordType \<Rightarrow> ErrnoException \<Rightarrow> DnsResult" where
  "catch_block t err =
     (if code err = Some ''ENODATA'' \<or> code err = Some ''ENOTFOUND''
      then \<lparr>type = t, records = [], error = None\<rparr>
      else \<lparr>type = t, records = [],
            error = Some (case message err of
                            None \<Rightarrow> ''Failed to resolve '' @ type_name t @ '' records''
                          | Some m \<Rightarrow> if m = [] then ''Failed to resolve '' @ type_name t @ '' records''
                                      else m)\<rparr>)"

text \<open>\<open>resolveType\<close>: the outcome of the promise it returns, and the extended call log.\<close>

definition resolveType ::
  "Resolver \<Rightarrow> string \<Rightarrow> RecordType \<Rightarrow> call list \<Rightarrow> DnsResult promise \<times> call list" where
  "resolveType dns domain t log =
     (case try_block dns domain t log of
        (Inr result, log') \<Rightarrow> (Inr result, log')
      | (Inl err, log') \<Rightarrow> (Inr (catch_block t err), log'))"

section \<open>resolveDns (dns.ts)\<close>

text \<open>An element of the array \<open>Promise.allSettled\<close> resolves with.\<close>

datatype 'a settled = Fulfilled 'a | Rejected "ErrnoException option"

definition settle :: "'a promise \<Rightarrow> 'a settled" where
  "settle p = (case p of Inr v \<Rightarrow> Fulfilled v | Inl reason \<Rightarrow> Rejected reason)"

text \<open>
  \<open>Promise.allSettled\<close>: the promises settle in some order, given as the list of their
  indices in completion order; each one, as it settles, writes its outcome into the slot
  of its own index. The combined promise resolves once no slot is empty; when some
  promise never settles it stays pending (\<open>None\<close>).
\<close>

fun settle_in_order ::
  "nat list \<Rightarrow> 'a promise list \<Rightarrow> 'a settled option list \<Rightarrow> 'a settled option list" where
  "settle_in_order [] ps slots = slots"
| "settle_in_order (i # order) ps slots =
     settle_in_order order ps
       (if i < length ps then slots[i := Some (settle (ps ! i))] else slots)"

definition allSettled :: "nat list \<Rightarrow> 'a promise list \<Rightarrow> 'a settled list option" where
  "allSettled order ps =
     (let slots = settle_in_order order ps (replicate (length ps) None)
      in if list_all (\<lambda>slot. slot \<noteq> None) slots then Some (map the slots) else None)"

text \<open>
  \<open>types.map((type) => resolveType(domain, type))\<close>: each call runs up to its
  \<open>await\<close>, that is, issues its resolver call, before the next call starts.
\<close>

fun start_tasks ::
  "Resolver \<Rightarrow> string \<Rightarrow> RecordType list \<Rightarrow> call list
    \<Rightarrow> DnsResult promise list \<times> call list" where
  "start_tasks dns domain [] log = ([], log)"
| "start_tasks dns domain (t # ts) log =
     (case resolveType dns domain t log of
        (p, log') \<Rightarrow>
          (case start_tasks dns domain ts log' of
             (ps, log'') \<Rightarrow> (p # ps, log'')))"

text \<open>
  The callback of \<open>results.map\<close>. \<open>result.reason?.message ?? "Unknown error"\<close> takes
  the fallback for a nullish reason and for an undefined message. The index is always
  below the length of \<open>types\<close>, the two arrays having the same length.
\<close>

definition join_result :: "RecordType list \<Rightarrow> nat \<Rightarrow> DnsResult settled \<Rightarrow> DnsResult" where
  "join_result types index result =
     (case result of
        Fulfilled v \<Rightarrow> v
      | Rejected reason \<Rightarrow>
          \<lparr>type = types ! index, records = [],
           error = Some (case reason of
                           None \<Rightarrow> ''Unknown error''
                         | Some e \<Rightarrow> (case message e of
                                       None \<Rightarrow> ''Unknown error''
                                     | Some m \<Rightarrow> m))\<rparr>)"

definition join_results :: "RecordType list \<Rightarrow> DnsResult settled list \<Rightarrow> DnsResult list" where
  "join_results types results =
     map (\<lambda>(index, result). join_result types index result) (enumerate 0 results)"

text \<open>
  The rest of \<open>resolveDns\<close> once the tasks are started: the outcome of the promise it
  returns, for a completion order of the tasks. \<open>None\<close>: the promise stays pending,
  some task never settling. The body has no \<open>throw\<close> and \<open>Promise.allSettled\<close>
  does not reject, so a settled outcome is always \<open>Inr\<close>.
\<close>

definition await_all ::
  "RecordType list \<Rightarrow> nat list \<Rightarrow> DnsResult promise list \<Rightarrow> DnsResult list promise option" where
  "await_all types order tasks =
     (case allSettled order tasks of
        None \<Rightarrow> None
      | Some results \<Rightarrow> Some (Inr (join_results types results)))"

text \<open>
  \<open>resolveDns\<close>, for a resolver, a completion order of the per-type tasks and a call
  log: the outcome of the promise it returns, and the extended log.
\<close>

definition resolveDns ::
  "Resolver \<Rightarrow> string \<Rightarrow> RecordType list \<Rightarrow> nat list \<Rightarrow> call list
    \<Rightarrow> DnsResult list promise option \<times> call list" where
  "resolveDns dns domain types order log =
     (case start_tasks dns domain types log of
        (tasks, log') \<Rightarrow> (await_all types order tasks, log'))"

text \<open>
  The resolver method that \<open>resolveType\<close> calls for a record type, called with the
  domain, rejects with \<open>err\<close>.
\<close>

definition rejects_with :: "Resolver \<Rightarrow> string \<Rightarrow> RecordType \<Rightarrow> ErrnoException \<Rightarrow> bool" where
  "rejects_with dns domain t err =
     (case t of
        A \<Rightarrow> resolve4 dns domain = Inl err
      | AAAA \<Rightarrow> resolve6 dns domain = Inl err
      | CNAME \<Rightarrow> resolveCname dns domain = Inl err
      | MX \<Rightarrow> resolveMx dns domain = Inl err
      | NS \<Rightarrow> resolveNs dns domain = Inl err
      | TXT \<Rightarrow> resolveTxt dns domain = Inl err
      | SOA \<Rightarrow> resolveSoa dns domain = Inl err
      | CAA \<Rightarrow> resolveCaa dns domain = Inl err
      | SRV \<Rightarrow> resolveSrv dns domain = Inl err)"

section \<open>formatTable (formatter.ts)\<close>

definition TYPE_LABELS :: "(string \<times> string) list" where
  "TYPE_LABELS =
     [(''A'', ''A (IPv4)''),
      (''AAAA'', ''AAAA (IPv6)''),
      (''CNAME'', ''CNAME (Canonical Name)''),
      (''MX'', ''MX (Mail Exchange)''),
      (''NS'', ''NS (Name Servers)''),
      (''TXT'', ''TXT (Text)''),
      (''SOA'', ''SOA (Start of Authority)''),
      (''CAA'', ''CAA (Certificate Authority)''),
      (''SRV'', ''SRV (Service)'')]"

text \<open>
  The two libraries of the formatter are parameters. A \<open>chalk\<close> styling function takes
  the chain of styles and its argument, which is undefined (\<open>None\<close>) where a
  destructured array is too short. A table is its header row and its rows; the
  \<open>style\<close> and \<open>chars\<close> options are the same for every table of the source and belong
  to the renderer, which stands for \<open>toString\<close> of cli-table3.
\<close>

datatype style = bold | dim | cyan | white | red | green | yellow

type_synonym chalk = "style list \<Rightarrow> string option \<Rightarrow> string"

record Table =
  head :: "string list"
  rows :: "string list list"

type_synonym table_renderer = "Table \<Rightarrow> string"

text \<open>
  \<open>String.prototype.split\<close> with a non-empty separator, the only use the source makes
  of it: \<open>piece\<close> is the current piece, read so far.
\<close>

function split_from :: "string \<Rightarrow> string \<Rightarrow> string \<Rightarrow> string list" where
  "split_from sep piece [] = [piece]"
| "split_from sep piece (c # cs) =
     (if sep \<noteq> [] \<and> take (length sep) (c # cs) = sep
      then piece # split_from sep [] (drop (length sep) (c # cs))
      else split_from sep (piece @ [c]) cs)"
  by pat_completeness auto
termination
  by (relation "measure (\<lambda>(sep, piece, s). length s)") auto

definition js_split :: "string \<Rightarrow> string \<Rightarrow> string list" where
  "js_split sep s = split_from sep [] s"

text \<open>An array element read by destructuring: undefined beyond the end.\<close>

definition element :: "'a list \<Rightarrow> nat \<Rightarrow> 'a option" where
  "element xs i = (if i < length xs then Some (xs ! i) else None)"

text \<open>An optional string inside a template literal.\<close>

definition template :: "string option \<Rightarrow> string" where
  "template s = (case s of None \<Rightarrow> ''undefined'' | Some x \<Rightarrow> x)"

text \<open>The truthiness of the optional \<open>error\<close>: a non-empty string.\<close>

definition truthy :: "string option \<Rightarrow> bool" where
  "truthy s = (case s of None \<Rightarrow> False | Some x \<Rightarrow> x \<noteq> [])"

text \<open>\<open>TYPE_LABELS[result.type] ?? result.type\<close>.\<close>

definition label_of :: "DnsResult \<Rightarrow> string" where
  "label_of result =
     (case map_of TYPE_LABELS (type_name (type result)) of
        Some label \<Rightarrow> label
      | None \<Rightarrow> type_name (type result))"

text \<open>The table built for a result with records, by record type.\<close>

definition records_table :: "chalk \<Rightarrow> DnsResult \<Rightarrow> Table" where
  "records_table chalk result =
     (if type result = SOA then
        \<lparr>head = [],
         rows = map (\<lambda>record. let parts = js_split '': '' record in
                       [chalk [dim] (element parts 0),
                        chalk [white] (Some (js_join '': '' (drop 1 parts)))])
                    (records result)\<rparr>
      else if type result = MX then
        \<lparr>head = [chalk [dim] (Some ''Priority''), chalk [dim] (Some ''Exchange'')],
         rows = map (\<lambda>record. let parts = js_split '' '' record in
                       [chalk [yellow] (element parts 0),
                        chalk [white] (Some (js_join '' '' (drop 1 parts)))])
                    (records result)\<rparr>
      else if type result = CAA then
        \<lparr>head = [chalk [dim] (Some ''Flags''), chalk [dim] (Some ''Tag''),
                 chalk [dim] (Some ''Value'')],
         rows = map (\<lambda>record. let parts = js_split '' '' record in
                       [chalk [yellow] (element parts 0),
                        chalk [cyan] (element parts 1),
                        chalk [white] (Some (js_join '' '' (drop 2 parts)))])
                    (records result)\<rparr>
      else if type result = SRV then
        \<lparr>head = [chalk [dim] (Some ''Priority''), chalk [dim] (Some ''Weight''),
                 chalk [dim] (Some ''Port''), chalk [dim] (Some ''Target'')],
         rows = map (\<lambda>record. let parts = js_split '' '' record in
                       [chalk [yellow] (element parts 0),
                        chalk [white] (element parts 1),
                        chalk [cyan] (element parts 2),
                        chalk [white] (element parts 3)])
                    (records result)\<rparr>
      else
        \<lparr>head = [],
         rows = map (\<lambda>record. [chalk [white] (Some record)]) (records result)\<rparr>)"

text \<open>The four header lines.\<close>

definition header :: "chalk \<Rightarrow> string \<Rightarrow> string list" where
  "header chalk domain =
     [[],
      chalk [bold, cyan] (Some ''  DNS Records for '') @ chalk [bold, white] (Some domain),
      chalk [dim] (Some (''  '' @ concat (replicate 50 [CHR 0xE2, CHR 0x94, CHR 0x80]))),
      []]"

text \<open>
  One iteration of the loop over the results, on the lines pushed so far and the flag
  \<open>hasAnyRecords\<close>. The first branch is the \<open>continue\<close> of short mode.
\<close>

definition loop_body ::
  "chalk \<Rightarrow> table_renderer \<Rightarrow> bool \<Rightarrow> string list \<times> bool \<Rightarrow> DnsResult
    \<Rightarrow> string list \<times> bool" where
  "loop_body chalk toString short state result =
     (case state of (lines, hasAnyRecords) \<Rightarrow>
        if short \<and> records result = [] \<and> \<not> truthy (error result) then (lines, hasAnyRecords)
        else if truthy (error result) then
          (lines @ [chalk [red] (Some (''  '' @ [CHR 0xE2, CHR 0x9C, CHR 0x96] @ '' ''
                                        @ label_of result)),
                    chalk [red, dim] (Some (''    Error: '' @ template (error result))),
                    []],
           True)
        else if records result = [] then
          (lines @ [chalk [dim] (Some (''  '' @ [CHR 0xE2, CHR 0x97, CHR 0x8B] @ '' ''
                                        @ label_of result))
                      @ chalk [dim] (Some (''  '' @ [CHR 0xE2, CHR 0x80, CHR 0x94]
                                            @ '' no records'')),
                    []],
           hasAnyRecords)
        else
          (lines @ [chalk [green] (Some (''  '' @ [CHR 0xE2, CHR 0x97, CHR 0x8F] @ '' ''
                                          @ label_of result)),
                    toString (records_table chalk result),
                    []],
           True))"

text \<open>The lines of \<open>formatTable\<close> before they are joined, and the joined text.\<close>

definition formatTable_lines ::
  "chalk \<Rightarrow> table_renderer \<Rightarrow> string \<Rightarrow> DnsResult list \<Rightarrow> bool \<Rightarrow> string list" where
  "formatTable_lines chalk toString domain results short =
     (case foldl (loop_body chalk toString short) (header chalk domain, False) results of
        (lines, hasAnyRecords) \<Rightarrow>
          if \<not> hasAnyRecords \<and> short
          then lines @ [chalk [dim] (Some ''  No DNS records found.''), []]
          else lines)"

definition formatTable ::
  "chalk \<Rightarrow> table_renderer \<Rightarrow> string \<Rightarrow> DnsResult list \<Rightarrow> bool \<Rightarrow> string" where
  "formatTable chalk toString domain results short =
     js_join [CHR 0x0A] (formatTable_lines chalk toString domain results short)"

text \<open>
  The block of a result: the lines an iteration of the loop pushes for it when it does
  not skip it. The summary of short mode: its two lines.
\<close>

definition block :: "chalk \<Rightarrow> table_renderer \<Rightarrow> DnsResult \<Rightarrow> string list" where
  "block chalk toString result = fst (loop_body chalk toString False ([], False) result)"

definition summary :: "chalk \<Rightarrow> string list" where
  "summary chalk = [chalk [dim] (Some ''  No DNS records found.''), []]"

text \<open>
  The layout the specification describes, for a reading \<open>omit\<close> of "the result has empty
  records and no error": the header, the blocks of the results that are not omitted, in
  input order, and the summary when short mode omitted every result.
\<close>

definition block_layout ::
  "(DnsResult \<Rightarrow> bool) \<Rightarrow> chalk \<Rightarrow> table_renderer \<Rightarrow> string \<Rightarrow> DnsResult list \<Rightarrow> bool
    \<Rightarrow> string list" where
  "block_layout omit chalk toString domain results short =
     header chalk domain
       @ concat (map (block chalk toString) (filter (\<lambda>r. \<not> (short \<and> omit r)) results))
       @ (if short \<and> list_all omit results then summary chalk else [])"

text \<open>The two readings: the \<open>error\<close> key is absent; the \<open>error\<close> is absent or empty.\<close>

definition empty_without_error_key :: "DnsResult \<Rightarrow> bool" where
  "empty_without_error_key r = (records r = [] \<and> error r = None)"

definition empty_without_error_text :: "DnsResult \<Rightarrow> bool" where
  "empty_without_error_text r = (records r = [] \<and> \<not> truthy (error r))"

section \<open>JSON.stringify and JSON.parse, as formatJson and its readers use them\<close>

text \<open>
  The values that occur: strings, arrays and objects (an object is the list of its
  properties in creation order), with \<open>null\<close> and the booleans for completeness.
  Numbers are left out.
\<close>

datatype json =
    JNull
  | JBool bool
  | JString string
  | JArray "json list"
  | JObject "(string \<times> json) list"

text \<open>
  \<open>QuoteJSONString\<close>: the named escapes, \<open>\u00xx\<close> in lower-case hexadecimal for the
  other characters below U+0020, every other character as it is. On UTF-8 bytes the
  characters from U+0080 on pass through unchanged.
\<close>

definition hex_digit :: "nat \<Rightarrow> char" where
  "hex_digit k = ''0123456789abcdef'' ! k"

definition quote_char :: "char \<Rightarrow> string" where
  "quote_char c =
     (if c = CHR 0x08 then [CHR 0x5C, CHR ''b'']
      else if c = CHR 0x09 then [CHR 0x5C, CHR ''t'']
      else if c = CHR 0x0A then [CHR 0x5C, CHR ''n'']
      else if c = CHR 0x0C then [CHR 0x5C, CHR ''f'']
      else if c = CHR 0x0D then [CHR 0x5C, CHR ''r'']
      else if c = CHR 0x22 then [CHR 0x5C, CHR 0x22]
      else if c = CHR 0x5C then [CHR 0x5C, CHR 0x5C]
      else if (of_char c :: nat) < 0x20
      then [CHR 0x5C, CHR ''u'', CHR ''0'', CHR ''0'',
            hex_digit (of_char c div 16), hex_digit (of_char c mod 16)]
      else [c])"

definition QuoteJSONString :: "string \<Rightarrow> string" where
  "QuoteJSONString s = CHR 0x22 # concat (map quote_char s) @ [CHR 0x22]"

text \<open>
  \<open>SerializeJSONProperty\<close> for the gap \<open>gap\<close> at the indentation \<open>indent\<close>, with
  \<open>SerializeJSONArray\<close> and \<open>SerializeJSONObject\<close> in its last two equations. An empty
  array or object has no line break; with an empty gap nothing is broken or indented.
\<close>

fun serialize :: "string \<Rightarrow> string \<Rightarrow> json \<Rightarrow> string" where
  "serialize gap indent JNull = ''null''"
| "serialize gap indent (JBool b) = (if b then ''true'' else ''false'')"
| "serialize gap indent (JString s) = QuoteJSONString s"
| "serialize gap indent (JArray xs) =
     (let partial = map (serialize gap (indent @ gap)) xs in
      if partial = [] then ''[]''
      else if gap = [] then ''['' @ js_join '','' partial @ '']''
      else ''['' @ [CHR 0x0A] @ indent @ gap
             @ js_join ('','' @ [CHR 0x0A] @ indent @ gap) partial
             @ [CHR 0x0A] @ indent @ '']'')"
| "serialize gap indent (JObject ps) =
     (let partial = map (\<lambda>p. QuoteJSONString (fst p) @ '':'' @ (if gap = [] then [] else '' '')
                               @ serialize gap (indent @ gap) (snd p)) ps in
      if partial = [] then ''{}''
      else if gap = [] then ''{'' @ js_join '','' partial @ ''}''
      else ''{'' @ [CHR 0x0A] @ indent @ gap
             @ js_join ('','' @ [CHR 0x0A] @ indent @ gap) partial
             @ [CHR 0x0A] @ indent @ ''}'')"

text \<open>\<open>JSON.stringify(value, null, n)\<close> for a number \<open>n\<close>: the gap is \<open>n\<close> spaces, at most ten.\<close>

definition JSON_stringify :: "json \<Rightarrow> nat \<Rightarrow> string" where
  "JSON_stringify v n = serialize (replicate (min n 10) CHR '' '') [] v"

text \<open>
  \<open>JSON.parse\<close> on texts of strings, arrays, objects, \<open>null\<close> and booleans; \<open>None\<close> is
  its SyntaxError. Outside this model, and \<open>None\<close> as well: number literals, and the
  escapes \<open>\uXXXX\<close> of characters from U+0080 on. Neither occurs in a text that
  \<open>serialize\<close> writes.
\<close>

definition is_ws :: "char \<Rightarrow> bool" where
  "is_ws c = (c = CHR 0x20 \<or> c = CHR 0x09 \<or> c = CHR 0x0A \<or> c = CHR 0x0D)"

definition skip_ws :: "string \<Rightarrow> string" where
  "skip_ws s = dropWhile is_ws s"

definition hex_value :: "char \<Rightarrow> nat option" where
  "hex_value c =
     (let n = (of_char c :: nat) in
      if 48 \<le> n \<and> n \<le> 57 then Some (n - 48)
      else if 97 \<le> n \<and> n \<le> 102 then Some (n - 87)
      else if 65 \<le> n \<and> n \<le> 70 then Some (n - 55)
      else None)"

definition unicode_escape :: "char \<Rightarrow> char \<Rightarrow> char \<Rightarrow> char \<Rightarrow> char option" where
  "unicode_escape a b c d =
     (case (hex_value a, hex_value b, hex_value c, hex_value d) of
        (Some h3, Some h2, Some h1, Some h0) \<Rightarrow>
          (let n = ((h3 * 16 + h2) * 16 + h1) * 16 + h0 in
           if n < 0x80 then Some (char_of n) else None)
      | _ \<Rightarrow> None)"

definition simple_escape :: "char \<Rightarrow> char option" where
  "simple_escape e =
     (if e = CHR 0x22 then Some (CHR 0x22)
      else if e = CHR 0x5C then Some (CHR 0x5C)
      else if e = CHR ''/'' then Some (CHR ''/'')
      else if e = CHR ''b'' then Some (CHR 0x08)
      else if e = CHR ''f'' then Some (CHR 0x0C)
      else if e = CHR ''n'' then Some (CHR 0x0A)
      else if e = CHR ''r'' then Some (CHR 0x0D)
      else if e = CHR ''t'' then Some (CHR 0x09)
      else None)"

text \<open>The characters of a string literal after its opening quote, and the text after it.\<close>

fun parse_string_body :: "string \<Rightarrow> (string \<times> string) option" where
  "parse_string_body [] = None"
| "parse_string_body (c # cs) =
     (if c = CHR 0x22 then Some ([], cs)
      else if c = CHR 0x5C then
        (case cs of
           [] \<Rightarrow> None
         | e # es \<Rightarrow>
             if e = CHR ''u'' then
               (case es of
                  h3 # h2 # h1 # h0 # rest \<Rightarrow>
                    (case unicode_escape h3 h2 h1 h0 of
                       None \<Rightarrow> None
                     | Some ch \<Rightarrow>
                         (case parse_string_body rest of
                            None \<Rightarrow> None
                          | Some (s, r) \<Rightarrow> Some (ch # s, r)))
                | _ \<Rightarrow> None)
             else
               (case simple_escape e of
                  None \<Rightarrow> None
                | Some ch \<Rightarrow>
                    (case parse_string_body es of
                       None \<Rightarrow> None
                     | Some (s, r) \<Rightarrow> Some (ch # s, r))))
      else if (of_char c :: nat) < 0x20 then None
      else (case parse_string_body cs of
              None \<Rightarrow> None
            | Some (s, r) \<Rightarrow> Some (c # s, r)))"

text \<open>
  Defining a property of the object under construction: a key that is there already
  keeps its place and takes the new value. (Keys that are array indices, which an object
  lists before its other keys, do not occur in the texts read here.)
\<close>

fun define_property :: "string \<Rightarrow> json \<Rightarrow> (string \<times> json) list \<Rightarrow> (string \<times> json) list" where
  "define_property k v [] = [(k, v)]"
| "define_property k v (p # ps) =
     (if fst p = k then (k, v) # ps else p # define_property k v ps)"

definition object_of :: "(string \<times> json) list \<Rightarrow> json" where
  "object_of members = JObject (foldl (\<lambda>ps (k, v). define_property k v ps) [] members)"

text \<open>
  The recursive descent, with fuel: \<open>parse_value\<close> reads a value at the head of the
  text, \<open>parse_elements\<close> the elements of a non-empty array up to its bracket and
  \<open>parse_members\<close> the members of a non-empty object up to its brace; each gives what
  it read and the text after it.
\<close>

fun parse_value :: "nat \<Rightarrow> string \<Rightarrow> (json \<times> string) option"
  and parse_elements :: "nat \<Rightarrow> string \<Rightarrow> (json list \<times> string) option"
  and parse_members :: "nat \<Rightarrow> string \<Rightarrow> ((string \<times> json) list \<times> string) option" where
  "parse_value 0 s = None"
| "parse_value (Suc n) s =
     (case s of
        [] \<Rightarrow> None
      | c # r \<Rightarrow>
          if c = CHR 0x22 then
            (case parse_string_body r of
               None \<Rightarrow> None
             | Some (str, r') \<Rightarrow> Some (JString str, r'))
          else if c = CHR ''['' then
            (case skip_ws r of
               [] \<Rightarrow> None
             | c' # r' \<Rightarrow>
                 if c' = CHR '']'' then Some (JArray [], r')
                 else (case parse_elements n (c' # r') of
                         None \<Rightarrow> None
                       | Some (xs, r'') \<Rightarrow> Some (JArray xs, r'')))
          else if c = CHR ''{'' then
            (case skip_ws r of
               [] \<Rightarrow> None
             | c' # r' \<Rightarrow>
                 if c' = CHR ''}'' then Some (JObject [], r')
                 else (case parse_members n (c' # r') of
                         None \<Rightarrow> None
                       | Some (ms, r'') \<Rightarrow> Some (object_of ms, r'')))
          else if take 4 s = ''null'' then Some (JNull, drop 4 s)
          else if take 4 s = ''true'' then Some (JBool True, drop 4 s)
          else if take 5 s = ''false'' then Some (JBool False, drop 5 s)
          else None)"
| "parse_elements 0 s = None"
| "parse_elements (Suc n) s =
     (case parse_value n s of
        None \<Rightarrow> None
      | Some (x, r) \<Rightarrow>
          (case skip_ws r of
             [] \<Rightarrow> None
           | c # r' \<Rightarrow>
               if c = CHR '','' then
                 (case parse_elements n (skip_ws r') of
                    None \<Rightarrow> None
                  | Some (xs, r'') \<Rightarrow> Some (x # xs, r''))
               else if c = CHR '']'' then Some ([x], r')
               else None))"
| "parse_members 0 s = None"
| "parse_members (Suc n) s =
     (case s of
        [] \<Rightarrow> None
      | q # r \<Rightarrow>
          if q \<noteq> CHR 0x22 then None
          else
            (case parse_string_body r of
               None \<Rightarrow> None
             | Some (k, r1) \<Rightarrow>
                 (case skip_ws r1 of
                    [] \<Rightarrow> None
                  | c # r2 \<Rightarrow>
                      if c \<noteq> CHR '':'' then None
                      else
                        (case parse_value n (skip_ws r2) of
                           None \<Rightarrow> None
                         | Some (v, r3) \<Rightarrow>
                             (case skip_ws r3 of
                                [] \<Rightarrow> None
                              | c' # r4 \<Rightarrow>
                                  if c' = CHR '','' then
                                    (case parse_members n (skip_ws r4) of
                                       None \<Rightarrow> None
                                     | Some (ms, r5) \<Rightarrow> Some ((k, v) # ms, r5))
                                  else if c' = CHR ''}'' then Some ([(k, v)], r4)
                                  else None)))))"

text \<open>
  \<open>JSON.parse\<close>: one value between optional white space and nothing else. The fuel
  is twice the length of the text; that it is enough for every text \<open>serialize\<close>
  writes is part of the round-trip proof below.
\<close>

definition JSON_parse :: "string \<Rightarrow> json option" where
  "JSON_parse s =
     (case parse_value (2 * length s) (skip_ws s) of
        None \<Rightarrow> None
      | Some (v, r) \<Rightarrow> if skip_ws r = [] then Some v else None)"

text \<open>Every object of the value has distinct keys.\<close>

fun distinct_keys :: "json \<Rightarrow> bool" where
  "distinct_keys (JArray xs) = (\<forall>x \<in> set xs. distinct_keys x)"
| "distinct_keys (JObject ps) = (distinct (map fst ps) \<and> (\<forall>p \<in> set ps. distinct_keys (snd p)))"
| "distinct_keys v = True"

text \<open>
  Two notions for reading the written text: the characters a serialized value can start
  with, and the line break with indentation that \<open>serialize\<close> puts between the parts of
  a non-empty array or object (nothing when the gap is empty).
\<close>

definition value_start :: "char \<Rightarrow> bool" where
  "value_start c = (c = CHR 0x22 \<or> c = CHR ''['' \<or> c = CHR ''{'' \<or> c = CHR ''n''
     \<or> c = CHR ''t'' \<or> c = CHR ''f'')"

definition line_break :: "string \<Rightarrow> string \<Rightarrow> string" where
  "line_break gap indent = (if gap = [] then [] else CHR 0x0A # indent)"

section \<open>formatJson (formatter.ts)\<close>

text \<open>
  A \<open>DnsResult\<close> as the object it is: the keys \<open>type\<close> and \<open>records\<close>, and the key
  \<open>error\<close> only when the result has one.
\<close>

definition result_value :: "DnsResult \<Rightarrow> json" where
  "result_value r =
     JObject ([(''type'', JString (type_name (type r))),
               (''records'', JArray (map JString (records r)))]
              @ (case error r of None \<Rightarrow> [] | Some e \<Rightarrow> [(''error'', JString e)]))"

text \<open>The object literal \<open>{ domain, results }\<close>.\<close>

definition output_value :: "string \<Rightarrow> DnsResult list \<Rightarrow> json" where
  "output_value domain results =
     JObject [(''domain'', JString domain), (''results'', JArray (map result_value results))]"

definition formatJson :: "string \<Rightarrow> DnsResult list \<Rightarrow> string" where
  "formatJson domain results = JSON_stringify (output_value domain results) 2"

section \<open>Example inputs\<close>

text \<open>The double quote, for writing expected texts.\<close>

definition dq :: string where
  "dq = [CHR 0x22]"

text \<open>
  A resolver in the manner of the mocks of dns.test.ts: A, MX, NS, TXT, SOA, CAA and
  SRV answer, AAAA has no data, CNAME fails with a message and no code.
\<close>

definition mock_mx_answers :: "MxRecord list" where
  "mock_mx_answers =
     [\<lparr>MxRecord.priority = 20, exchange = ''mx2.example.com''\<rparr>,
      \<lparr>MxRecord.priority = 10, exchange = ''mx1.example.com''\<rparr>,
      \<lparr>MxRecord.priority = 0, exchange = ''.''\<rparr>,
      \<lparr>MxRecord.priority = 10, exchange = ''mx0.example.com''\<rparr>]"

definition mock_mx_wide :: "MxRecord list" where
  "mock_mx_wide =
     [\<lparr>MxRecord.priority = 65535, exchange = ''backup.example.com''\<rparr>,
      \<lparr>MxRecord.priority = 100, exchange = ''mx100.example.com''\<rparr>,
      \<lparr>MxRecord.priority = 0, exchange = ''mx.example.com''\<rparr>,
      \<lparr>MxRecord.priority = 7, exchange = ''.''\<rparr>]"

definition mock_txt_answers :: "string list list" where
  "mock_txt_answers =
     [[''v=spf1 include:_spf.example.com'', '' ~all''], [''google-site-verification=abc123'']]"

definition mock_caa_answers :: "CaaRecord list" where
  "mock_caa_answers =
     [\<lparr>critical = 128, issue = Some ''letsencrypt.org'', issuewild = None, iodef = None,
       contactemail = None, contactphone = None\<rparr>,
      \<lparr>critical = 0, issue = None, issuewild = Some ''letsencrypt.org'', iodef = None,
       contactemail = None, contactphone = None\<rparr>,
      \<lparr>critical = 0, issue = None, issuewild = None, iodef = Some ''mailto:admin@example.com'',
       contactemail = None, contactphone = None\<rparr>,
      \<lparr>critical = 0, issue = None, issuewild = None, iodef = None,
       contactemail = Some ''admin@example.com'', contactphone = None\<rparr>]"

definition mock_dns :: Resolver where
  "mock_dns =
     \<lparr>resolve4 = (\<lambda>_. Inr [''93.184.216.34'']),
      resolve6 = (\<lambda>_. Inl \<lparr>code = Some ''ENODATA'', message = Some ''queryAAAA ENODATA''\<rparr>),
      resolveCname = (\<lambda>_. Inl \<lparr>code = None, message = Some ''Connection refused''\<rparr>),
      resolveMx = (\<lambda>_. Inr mock_mx_answers),
      resolveNs = (\<lambda>_. Inr [''ns1.example.com'']),
      resolveTxt = (\<lambda>_. Inr mock_txt_answers),
      resolveSoa = (\<lambda>_. Inr \<lparr>nsname = ''ns1.example.com'', hostmaster = ''admin.example.com'',
                            serial = 2024010101, refresh = 3600, retry = 900,
                            expire = 604800, minttl = 86400\<rparr>),
      resolveCaa = (\<lambda>_. Inr mock_caa_answers),
      resolveSrv = (\<lambda>_. Inr [\<lparr>SrvRecord.priority = 10, weight = 60, port = 5060,
                            name = ''sip.example.com''\<rparr>])\<rparr>"

text \<open>
  The libraries of formatter.test.ts: chalk with colours off, which returns its argument,
  and a stand-in for the table renderer that joins cells and rows.
\<close>

definition plain_chalk :: chalk where
  "plain_chalk styles s = template s"

definition plain_table :: table_renderer where
  "plain_table t =
     js_join [CHR 0x0A]
       (map (js_join ''  '') ((if head t = [] then [] else [head t]) @ rows t))"

section \<open>Properties of the normalisation rules\<close>

lemma js_join_Cons: "js_join sep (x # xs) = x @ concat (map (\<lambda>y. sep @ y) xs)"
  by (induction xs arbitrary: x) simp_all

lemma js_join_empty_sep: "js_join [] xs = concat xs"
  by (cases xs) (simp_all add: js_join_Cons)

lemma await_call_simp [simp]:
  "await_call method f domain log = (f domain, log @ [(method, domain)])"
  by (simp add: await_call_def)

text \<open>
  C8: when the TXT query succeeds, the result has one record per answer, in the answers'
  order, and each record is the concatenation of that answer's chunks with nothing in
  between.
\<close>

theorem txt_chunks_joined:
  "resolveTxt dns domain = Inr answers \<Longrightarrow>
     fst (resolveType dns domain TXT log)
       = Inr \<lparr>type = TXT, records = map concat answers, error = None\<rparr>
     \<and> length (map concat answers) = length answers
     \<and> (\<forall>i < length answers. map concat answers ! i = concat (answers ! i))"
  by (simp add: resolveType_def ok_def js_join_empty_sep cong: map_cong)

theorem txt_chunks_joined_witness:
  "resolveTxt mock_dns ''example.com'' = Inr mock_txt_answers
   \<and> fst (resolveType mock_dns ''example.com'' TXT [])
     = Inr \<lparr>type = TXT,
            records = [''v=spf1 include:_spf.example.com ~all'', ''google-site-verification=abc123''],
            error = None\<rparr>"
proof -
  have h: "resolveTxt mock_dns ''example.com'' = Inr mock_txt_answers"
    by (simp add: mock_dns_def)
  show ?thesis
    using h txt_chunks_joined [OF h, of "[]"] by (simp add: mock_txt_answers_def)
qed

lemma sort_insert_mx: "sort_insert mx_compare x ys = insort_key MxRecord.priority x ys"
  by (induction ys) (simp_all add: mx_compare_def)

lemma js_sort_mx: "js_sort mx_compare xs = sort_key MxRecord.priority xs"
  by (induction xs) (simp_all add: js_sort_def sort_insert_mx)

lemma digit_char_facts:
  assumes "d < 10"
  shows "digit_char d \<in> set ''0123456789''" and "(of_char (digit_char d) :: nat) = 48 + d"
    and "d \<noteq> 0 \<Longrightarrow> digit_char d \<noteq> CHR ''0''" and "digit_char 0 = CHR ''0''"
proof -
  have d: "d \<in> set [0..<10]" using assms by simp
  have "\<forall>d \<in> set [0..<10]. digit_char d \<in> set ''0123456789''
      \<and> (of_char (digit_char d) :: nat) = 48 + d
      \<and> (d \<noteq> 0 \<longrightarrow> digit_char d \<noteq> CHR ''0'')"
    by code_simp
  then show "digit_char d \<in> set ''0123456789''" and "(of_char (digit_char d) :: nat) = 48 + d"
    and "d \<noteq> 0 \<Longrightarrow> digit_char d \<noteq> CHR ''0''"
    using d by blast+
  show "digit_char 0 = CHR ''0''" by code_simp
qed

lemma decimal_digits_acc: "decimal_digits n acc = decimal_digits n [] @ acc"
proof (induction n arbitrary: acc rule: less_induct)
  case (less n)
  show ?case
  proof (cases "n < 10")
    case True
    then show ?thesis by (simp add: decimal_digits.simps)
  next
    case False
    then have d: "n div 10 < n" by simp
    have "decimal_digits n acc = decimal_digits (n div 10) [] @ digit_char (n mod 10) # acc"
      using False less[OF d, of "digit_char (n mod 10) # acc"]
      by (simp add: decimal_digits.simps[of n])
    moreover have "decimal_digits n [] = decimal_digits (n div 10) [] @ [digit_char (n mod 10)]"
      using False less[OF d, of "[digit_char (n mod 10)]"]
      by (simp add: decimal_digits.simps[of n])
    ultimately show ?thesis by simp
  qed
qed

lemma decimal_digits_small: "n < 10 \<Longrightarrow> decimal_digits n [] = [digit_char n]"
  by (simp add: decimal_digits.simps)

lemma decimal_digits_step:
  "\<not> n < 10 \<Longrightarrow> decimal_digits n [] = decimal_digits (n div 10) [] @ [digit_char (n mod 10)]"
  using decimal_digits_acc[of "n div 10" "[digit_char (n mod 10)]"]
  by (simp add: decimal_digits.simps[of n])

lemma decimal_value_snoc: "decimal_value (s @ [c]) = 10 * decimal_value s + (of_char c - 48)"
  by (simp add: decimal_value_def)

lemma decimal_digits_numeral:
  "decimal_digits n [] \<noteq> []
   \<and> list_all (\<lambda>c. c \<in> set ''0123456789'') (decimal_digits n [])
   \<and> (0 < n \<longrightarrow> hd (decimal_digits n []) \<noteq> CHR ''0'')
   \<and> decimal_value (decimal_digits n []) = n"
proof (induction n rule: less_induct)
  case (less n)
  show ?case
  proof (cases "n < 10")
    case True
    then show ?thesis
      using digit_char_facts(1,2,3)[OF True]
      by (simp add: decimal_digits_small decimal_value_def)
  next
    case False
    then have d: "n div 10 < n" and p: "0 < n div 10" by simp_all
    have m: "n mod 10 < 10" by simp
    note IH = less[OF d]
    have "hd (decimal_digits (n div 10) [] @ [digit_char (n mod 10)])
        = hd (decimal_digits (n div 10) [])"
      using IH by simp
    then show ?thesis
      using IH p digit_char_facts(1,2)[OF m]
      by (simp add: decimal_digits_step[OF False] decimal_value_snoc)
  qed
qed

lemma decimal_numeral_digits: "decimal_numeral (decimal_digits n []) n"
proof (cases "n = 0")
  case True
  have "decimal_digits 0 [] = ''0''"
    using digit_char_facts(4)[of 0] by (simp add: decimal_digits_small)
  then show ?thesis
    using decimal_digits_numeral[of 0] True by (simp add: decimal_numeral_def)
next
  case False
  then show ?thesis
    using decimal_digits_numeral[of n] by (simp add: decimal_numeral_def)
qed

lemma decimal_of_string_of_number: "decimal_of (string_of_number i) i"
  by (simp add: decimal_of_def string_of_number_def decimal_numeral_digits)

lemma decimal_value_pos:
  "s \<noteq> [] \<Longrightarrow> list_all (\<lambda>c. c \<in> set ''0123456789'') s \<Longrightarrow> hd s \<noteq> CHR ''0''
     \<Longrightarrow> 0 < decimal_value s"
proof (induction s rule: rev_induct)
  case Nil
  then show ?case by simp
next
  case (snoc c s)
  show ?case
  proof (cases "s = []")
    case True
    have "c \<in> set ''0123456789''" "c \<noteq> CHR ''0''" using snoc.prems True by simp_all
    then have "(of_char c :: nat) - 48 > 0" by auto
    then show ?thesis using True by (simp add: decimal_value_def)
  next
    case False
    then have "0 < decimal_value s" using snoc by simp
    then show ?thesis by (simp add: decimal_value_snoc)
  qed
qed

lemma digit_of_char:
  "c \<in> set ''0123456789'' \<Longrightarrow> (of_char c :: nat) - 48 < 10 \<and> c = digit_char (of_char c - 48)"
proof -
  have "\<forall>c \<in> set ''0123456789''. (of_char c :: nat) - 48 < 10 \<and> c = digit_char (of_char c - 48)"
    by code_simp
  then show "c \<in> set ''0123456789'' \<Longrightarrow> ?thesis" by blast
qed

lemma decimal_numeral_unique: "decimal_numeral s n \<Longrightarrow> s = decimal_digits n []"
proof (induction s arbitrary: n rule: rev_induct)
  case Nil
  then show ?case by (simp add: decimal_numeral_def)
next
  case (snoc c s)
  have dig: "list_all (\<lambda>c. c \<in> set ''0123456789'') s" and c: "c \<in> set ''0123456789''"
    and v: "10 * decimal_value s + (of_char c - 48) = n"
    and lead: "hd (s @ [c]) \<noteq> CHR ''0'' \<or> s @ [c] = ''0''"
    using snoc.prems by (simp_all add: decimal_numeral_def decimal_value_snoc)
  have cd: "(of_char c :: nat) - 48 < 10" and cc: "c = digit_char (of_char c - 48)"
    using digit_of_char[OF c] by simp_all
  show ?case
  proof (cases "s = []")
    case True
    then have "n = of_char c - 48" using v by (simp add: decimal_value_def)
    then show ?thesis using True cd cc by (simp add: decimal_digits_small)
  next
    case False
    then have h: "hd s \<noteq> CHR ''0''" using lead by auto
    then have pos: "0 < decimal_value s" using decimal_value_pos[OF False dig] by simp
    have "decimal_numeral s (decimal_value s)"
      using False dig h by (simp add: decimal_numeral_def)
    then have s: "s = decimal_digits (decimal_value s) []" by (rule snoc.IH)
    have big: "\<not> n < 10" using v pos by simp
    have "n div 10 = decimal_value s" and "n mod 10 = of_char c - 48"
      using v cd by auto
    then show ?thesis
      using s cc by (simp add: decimal_digits_step[OF big])
  qed
qed

lemma decimal_of_unique: "decimal_of s i \<Longrightarrow> s = string_of_number i"
  by (auto simp: decimal_of_def string_of_number_def dest: decimal_numeral_unique
      split: if_splits list.splits)


lemma decimal_of_determined: "decimal_of s i \<Longrightarrow> decimal_of s' i \<Longrightarrow> s = s'"
  using decimal_of_unique by blast

lemma render_mx_text:
  "if MxRecord.priority r = 0 \<and> exchange r = ''.''
   then render_mx r
          = ''0 . (null MX '' @ [CHR 0xE2, CHR 0x80, CHR 0x94] @ '' domain does not accept mail)''
   else \<exists>d. decimal_of d (MxRecord.priority r) \<and> render_mx r = d @ '' '' @ exchange r"
proof (cases "MxRecord.priority r = 0 \<and> exchange r = ''.''")
  case True
  have "string_of_number 0 = ''0''" by code_simp
  then show ?thesis using True by (simp add: render_mx_def em_dash_def)
next
  case False
  have "decimal_of (string_of_number (MxRecord.priority r)) (MxRecord.priority r)"
    by (rule decimal_of_string_of_number)
  then show ?thesis using False by (auto simp: render_mx_def)
qed

text \<open>
  C4: when the MX query succeeds, there is one record per answer, for the answers in an
  order that is a rearrangement of them, ascending in priority, and keeps the answers of
  any one priority in the order they came in (a stable sort). The record of an answer is
  the decimal numeral of its priority, a space and its exchange, except that priority 0
  with exchange \<open>.\<close> gives \<open>0 . (null MX\<close>, the em dash (bytes E2 80 94) and
  \<open>domain does not accept mail)\<close>.
\<close>

theorem mx_sorted_and_rendered:
  assumes "resolveMx dns domain = Inr answers"
  shows "\<exists>ordered texts.
     mset ordered = mset answers
     \<and> sorted (map MxRecord.priority ordered)
     \<and> (\<forall>p. filter (\<lambda>r. MxRecord.priority r = p) ordered
              = filter (\<lambda>r. MxRecord.priority r = p) answers)
     \<and> fst (resolveType dns domain MX log) = Inr \<lparr>type = MX, records = texts, error = None\<rparr>
     \<and> length texts = length ordered
     \<and> (\<forall>i < length ordered.
          if MxRecord.priority (ordered ! i) = 0 \<and> exchange (ordered ! i) = ''.''
          then texts ! i
                 = ''0 . (null MX '' @ [CHR 0xE2, CHR 0x80, CHR 0x94]
                     @ '' domain does not accept mail)''
          else \<exists>d. decimal_of d (MxRecord.priority (ordered ! i))
                 \<and> texts ! i = d @ '' '' @ exchange (ordered ! i))"
proof (intro exI conjI)
  let ?ordered = "sort_key MxRecord.priority answers"
  show "mset ?ordered = mset answers" by simp
  show "sorted (map MxRecord.priority ?ordered)" by simp
  show "\<forall>p. filter (\<lambda>r. MxRecord.priority r = p) ?ordered
              = filter (\<lambda>r. MxRecord.priority r = p) answers"
    by (simp add: sort_key_stable)
  show "fst (resolveType dns domain MX log)
       = Inr \<lparr>type = MX, records = map render_mx ?ordered, error = None\<rparr>"
    using assms by (simp add: resolveType_def ok_def js_sort_mx)
  show "length (map render_mx ?ordered) = length ?ordered" by simp
  show "\<forall>i < length ?ordered.
          if MxRecord.priority (?ordered ! i) = 0 \<and> exchange (?ordered ! i) = ''.''
          then map render_mx ?ordered ! i
                 = ''0 . (null MX '' @ [CHR 0xE2, CHR 0x80, CHR 0x94]
                     @ '' domain does not accept mail)''
          else \<exists>d. decimal_of d (MxRecord.priority (?ordered ! i))
                 \<and> map render_mx ?ordered ! i = d @ '' '' @ exchange (?ordered ! i)"
  proof (intro allI impI)
    fix i assume "i < length ?ordered"
    then have nth: "map render_mx ?ordered ! i = render_mx (?ordered ! i)" by simp
    show "if MxRecord.priority (?ordered ! i) = 0 \<and> exchange (?ordered ! i) = ''.''
          then map render_mx ?ordered ! i
                 = ''0 . (null MX '' @ [CHR 0xE2, CHR 0x80, CHR 0x94]
                     @ '' domain does not accept mail)''
          else \<exists>d. decimal_of d (MxRecord.priority (?ordered ! i))
                 \<and> map render_mx ?ordered ! i = d @ '' '' @ exchange (?ordered ! i)"
      unfolding nth by (rule render_mx_text)
  qed
qed

lemma digit_char_table:
  "digit_char 0 = CHR ''0''" "digit_char 1 = CHR ''1''" "digit_char 2 = CHR ''2''"
  "digit_char 3 = CHR ''3''" "digit_char 4 = CHR ''4''" "digit_char 5 = CHR ''5''"
  "digit_char 6 = CHR ''6''" "digit_char 7 = CHR ''7''" "digit_char 8 = CHR ''8''"
  "digit_char 9 = CHR ''9''" "digit_char (Suc 0) = CHR ''1''"
  by code_simp+

theorem mx_sorted_and_rendered_witness:
  "resolveMx mock_dns ''example.com'' = Inr mock_mx_answers
   \<and> fst (resolveType mock_dns ''example.com'' MX [])
     = Inr \<lparr>type = MX,
            records = [''0 . (null MX '' @ [CHR 0xE2, CHR 0x80, CHR 0x94]
                         @ '' domain does not accept mail)'',
                       ''10 mx1.example.com'', ''10 mx0.example.com'', ''20 mx2.example.com''],
            error = None\<rparr>
   \<and> resolveMx (mock_dns\<lparr>resolveMx := \<lambda>_. Inr mock_mx_wide\<rparr>) ''example.com''
     = Inr mock_mx_wide
   \<and> fst (resolveType (mock_dns\<lparr>resolveMx := \<lambda>_. Inr mock_mx_wide\<rparr>) ''example.com'' MX [])
     = Inr \<lparr>type = MX,
            records = [''0 mx.example.com'', ''7 .'', ''100 mx100.example.com'',
                       ''65535 backup.example.com''],
            error = None\<rparr>
   \<and> decimal_of ''65535'' 65535 \<and> decimal_of ''100'' 100 \<and> decimal_of ''-12'' (- 12)"
proof -
  have h: "resolveMx mock_dns ''example.com'' = Inr mock_mx_answers"
    by (simp add: mock_dns_def)
  have e: "fst (resolveType mock_dns ''example.com'' MX [])
     = Inr \<lparr>type = MX,
            records = [''0 . (null MX '' @ [CHR 0xE2, CHR 0x80, CHR 0x94]
                         @ '' domain does not accept mail)'',
                       ''10 mx1.example.com'', ''10 mx0.example.com'', ''20 mx2.example.com''],
            error = None\<rparr>"
    by code_simp
  have h': "resolveMx (mock_dns\<lparr>resolveMx := \<lambda>_. Inr mock_mx_wide\<rparr>) ''example.com''
     = Inr mock_mx_wide"
    by simp
  have e': "fst (resolveType (mock_dns\<lparr>resolveMx := \<lambda>_. Inr mock_mx_wide\<rparr>) ''example.com'' MX [])
     = Inr \<lparr>type = MX,
            records = [''0 mx.example.com'', ''7 .'', ''100 mx100.example.com'',
                       ''65535 backup.example.com''],
            error = None\<rparr>"
    by (simp add: resolveType_def ok_def js_sort_def mx_compare_def render_mx_def
        mock_mx_wide_def string_of_number_def decimal_digits.simps digit_char_table)
  have d: "decimal_of ''65535'' 65535 \<and> decimal_of ''100'' 100 \<and> decimal_of ''-12'' (- 12)"
    by (simp add: decimal_of_def decimal_numeral_def decimal_value_def)
  show ?thesis
    using h e h' e' d mx_sorted_and_rendered [OF h, of "[]"] mx_sorted_and_rendered [OF h', of "[]"]
    by simp
qed



text \<open>
  C10: a CAA answer with none of \<open>issue\<close>, \<open>issuewild\<close> and \<open>iodef\<close> populated still
  yields its record, at its position: the flags followed by \<open>iodef unknown\<close>.
\<close>

theorem caa_unpopulated_default:
  assumes "resolveCaa dns domain = Inr answers"
  shows "\<exists>recs.
     fst (resolveType dns domain CAA log) = Inr \<lparr>type = CAA, records = recs, error = None\<rparr>
     \<and> length recs = length answers
     \<and> (\<forall>i < length answers.
          issue (answers ! i) = None \<and> issuewild (answers ! i) = None \<and> iodef (answers ! i) = None
          \<longrightarrow> recs ! i = (if critical (answers ! i) \<noteq> 0 then ''128'' else ''0'') @ '' iodef unknown'')"
  using assms
  by (simp add: resolveType_def ok_def render_caa_def caa_flags_def caa_tag_def caa_value_def)

theorem caa_unpopulated_default_witness:
  "resolveCaa mock_dns ''example.com'' = Inr mock_caa_answers
   \<and> issue (mock_caa_answers ! 3) = None \<and> issuewild (mock_caa_answers ! 3) = None
   \<and> iodef (mock_caa_answers ! 3) = None
   \<and> map_sum id (\<lambda>r. records r ! 3) (fst (resolveType mock_dns ''example.com'' CAA []))
     = Inr ''0 iodef unknown''"
proof -
  have h: "resolveCaa mock_dns ''example.com'' = Inr mock_caa_answers"
    by (simp add: mock_dns_def)
  have e: "issue (mock_caa_answers ! 3) = None \<and> issuewild (mock_caa_answers ! 3) = None
   \<and> iodef (mock_caa_answers ! 3) = None
   \<and> map_sum id (\<lambda>r. records r ! 3) (fst (resolveType mock_dns ''example.com'' CAA []))
     = Inr ''0 iodef unknown''"
    by code_simp
  show ?thesis
    using h e caa_unpopulated_default [OF h, of "[]"] by simp
qed

section \<open>Classification of failures\<close>

lemma try_block_rejected:
  "rejects_with dns domain t err \<Longrightarrow> fst (try_block dns domain t log) = Inl err"
  by (cases t) (simp_all add: rejects_with_def)

text \<open>
  C3: when the resolver call of a record type fails, the result has that type and no
  records; it has no error when the failure's code is \<open>ENODATA\<close> or \<open>ENOTFOUND\<close>,
  and otherwise the failure's message as its error, or \<open>Failed to resolve <TYPE> records\<close>
  when the message is undefined or empty.
\<close>

theorem failure_classification:
  assumes "rejects_with dns domain t err"
  shows "fst (resolveType dns domain t log)
    = Inr \<lparr>type = t, records = [],
           error = (if code err = Some ''ENODATA'' \<or> code err = Some ''ENOTFOUND'' then None
                    else if message err = None \<or> message err = Some []
                    then Some (case t of
                                 A \<Rightarrow> ''Failed to resolve A records''
                               | AAAA \<Rightarrow> ''Failed to resolve AAAA records''
                               | CNAME \<Rightarrow> ''Failed to resolve CNAME records''
                               | MX \<Rightarrow> ''Failed to resolve MX records''
                               | NS \<Rightarrow> ''Failed to resolve NS records''
                               | TXT \<Rightarrow> ''Failed to resolve TXT records''
                               | SOA \<Rightarrow> ''Failed to resolve SOA records''
                               | CAA \<Rightarrow> ''Failed to resolve CAA records''
                               | SRV \<Rightarrow> ''Failed to resolve SRV records'')
                    else message err)\<rparr>"
proof -
  have "''Failed to resolve '' @ type_name t @ '' records''
      = (case t of
           A \<Rightarrow> ''Failed to resolve A records''
         | AAAA \<Rightarrow> ''Failed to resolve AAAA records''
         | CNAME \<Rightarrow> ''Failed to resolve CNAME records''
         | MX \<Rightarrow> ''Failed to resolve MX records''
         | NS \<Rightarrow> ''Failed to resolve NS records''
         | TXT \<Rightarrow> ''Failed to resolve TXT records''
         | SOA \<Rightarrow> ''Failed to resolve SOA records''
         | CAA \<Rightarrow> ''Failed to resolve CAA records''
         | SRV \<Rightarrow> ''Failed to resolve SRV records'')"
    by (cases t) simp_all
  then show ?thesis
    using try_block_rejected[OF assms, of log]
    by (auto simp: resolveType_def catch_block_def split: prod.splits sum.splits option.splits)
qed

theorem failure_classification_witness:
  "rejects_with mock_dns ''example.com'' AAAA
     \<lparr>code = Some ''ENODATA'', message = Some ''queryAAAA ENODATA''\<rparr>
   \<and> fst (resolveType mock_dns ''example.com'' AAAA [])
       = Inr \<lparr>type = AAAA, records = [], error = None\<rparr>
   \<and> rejects_with mock_dns ''example.com'' CNAME
       \<lparr>code = None, message = Some ''Connection refused''\<rparr>
   \<and> fst (resolveType mock_dns ''example.com'' CNAME [])
       = Inr \<lparr>type = CNAME, records = [], error = Some ''Connection refused''\<rparr>
   \<and> rejects_with (mock_dns\<lparr>resolve4 := \<lambda>_. Inl \<lparr>code = None, message = Some []\<rparr>\<rparr>)
       ''example.com'' A \<lparr>code = None, message = Some []\<rparr>
   \<and> fst (resolveType (mock_dns\<lparr>resolve4 := \<lambda>_. Inl \<lparr>code = None, message = Some []\<rparr>\<rparr>)
            ''example.com'' A [])
       = Inr \<lparr>type = A, records = [], error = Some ''Failed to resolve A records''\<rparr>"
proof -
  have h1: "rejects_with mock_dns ''example.com'' AAAA
     \<lparr>code = Some ''ENODATA'', message = Some ''queryAAAA ENODATA''\<rparr>"
    by (simp add: rejects_with_def mock_dns_def)
  have h2: "rejects_with mock_dns ''example.com'' CNAME
     \<lparr>code = None, message = Some ''Connection refused''\<rparr>"
    by (simp add: rejects_with_def mock_dns_def)
  have h3: "rejects_with (mock_dns\<lparr>resolve4 := \<lambda>_. Inl \<lparr>code = None, message = Some []\<rparr>\<rparr>)
       ''example.com'' A \<lparr>code = None, message = Some []\<rparr>"
    by (simp add: rejects_with_def)
  show ?thesis
    using h1 h2 h3 failure_classification [OF h1, of "[]"] failure_classification [OF h2, of "[]"]
      failure_classification [OF h3, of "[]"]
    by simp
qed

section \<open>resolveDns: joining the tasks\<close>

lemma resolveType_log_irrelevant:
  "fst (resolveType dns domain t log) = fst (resolveType dns domain t [])"
  by (cases t) (simp_all add: resolveType_def split: sum.splits)

lemma resolveType_log:
  "\<exists>call. snd (resolveType dns domain t log) = log @ [call]"
  by (cases t) (simp_all add: resolveType_def split: sum.splits)

lemma resolveType_fulfilled:
  "\<exists>r. fst (resolveType dns domain t log) = Inr r \<and> type r = t
      \<and> (error r = None \<or> records r = [])"
  by (cases t) (auto simp: resolveType_def ok_def catch_block_def split: sum.splits)

lemma start_tasks_fst:
  "fst (start_tasks dns domain types log) = map (\<lambda>t. fst (resolveType dns domain t [])) types"
proof (induction types arbitrary: log)
  case Nil
  show ?case by simp
next
  case (Cons t ts)
  obtain p l where r: "resolveType dns domain t log = (p, l)" by (cases "resolveType dns domain t log")
  obtain ps l' where st: "start_tasks dns domain ts l = (ps, l')" by (cases "start_tasks dns domain ts l")
  have "p = fst (resolveType dns domain t [])"
    using resolveType_log_irrelevant[of dns domain t log] r by simp
  moreover have "ps = map (\<lambda>t. fst (resolveType dns domain t [])) ts"
    using Cons.IH[of l] st by simp
  ultimately show ?case by (simp add: r st)
qed

lemma start_tasks_log_length:
  "length (snd (start_tasks dns domain types log)) = length log + length types"
proof (induction types arbitrary: log)
  case Nil
  show ?case by simp
next
  case (Cons t ts)
  obtain p l where r: "resolveType dns domain t log = (p, l)" by (cases "resolveType dns domain t log")
  obtain ps l' where st: "start_tasks dns domain ts l = (ps, l')" by (cases "start_tasks dns domain ts l")
  obtain c where c: "l = log @ [c]"
    using resolveType_log[of dns domain t log] r by auto
  have "length l' = length l + length ts"
    using Cons.IH[of l] st by simp
  then show ?case using r st c by simp
qed

lemma settle_in_order_length:
  "length (settle_in_order order ps slots) = length slots"
  by (induction order arbitrary: slots) simp_all

lemma settle_in_order_nth:
  "length slots = length ps \<Longrightarrow> i < length ps \<Longrightarrow>
     settle_in_order order ps slots ! i
       = (if i \<in> set order then Some (settle (ps ! i)) else slots ! i)"
proof (induction order arbitrary: slots)
  case Nil
  show ?case by simp
next
  case (Cons j order)
  show ?case
    using Cons.IH[of "if j < length ps then slots[j := Some (settle (ps ! j))] else slots"] Cons.prems
    by (auto simp: nth_list_update)
qed

lemma allSettled_complete:
  assumes "mset order = mset [0..<length ps]"
  shows "allSettled order ps = Some (map settle ps)"
proof -
  have s: "set order = {0..<length ps}"
    using assms by (metis set_mset_mset set_upt)
  let ?slots = "settle_in_order order ps (replicate (length ps) None)"
  have "?slots = map Some (map settle ps)"
  proof (rule nth_equalityI)
    show "length ?slots = length (map Some (map settle ps))"
      by (simp add: settle_in_order_length)
  next
    fix i assume "i < length ?slots"
    then have i: "i < length ps" by (simp add: settle_in_order_length)
    then show "?slots ! i = map Some (map settle ps) ! i"
      using settle_in_order_nth[of "replicate (length ps) None" ps i order] s by simp
  qed
  moreover have "list_all (\<lambda>slot. slot \<noteq> None) (map Some (map settle ps))"
    by (simp add: list_all_iff)
  moreover have "map the (map Some (map settle ps)) = map settle ps"
    by (simp add: comp_def)
  ultimately show ?thesis
    by (simp add: allSettled_def Let_def)
qed

lemma join_results_length: "length (join_results types results) = length results"
  by (simp add: join_results_def)

lemma join_results_nth:
  "i < length results \<Longrightarrow> join_results types results ! i = join_result types i (results ! i)"
  by (simp add: join_results_def nth_enumerate_eq)

lemma await_all_complete:
  assumes "mset order = mset [0..<length tasks]"
  shows "await_all types order tasks = Some (Inr (join_results types (map settle tasks)))"
  by (simp add: await_all_def allSettled_complete[OF assms])

lemma await_all_not_rejected: "await_all types order tasks \<noteq> Some (Inl reason)"
  by (simp add: await_all_def split: option.splits)


lemma resolveDns_complete:
  assumes "mset order = mset [0..<length types]"
  shows "fst (resolveDns dns domain types order log)
    = Some (Inr (join_results types (map settle (fst (start_tasks dns domain types log)))))"
proof -
  obtain tasks l where st: "start_tasks dns domain types log = (tasks, l)"
    by (cases "start_tasks dns domain types log")
  have "length tasks = length types"
    using start_tasks_fst[of dns domain types log] st by simp
  then have "mset order = mset [0..<length tasks]" using assms by simp
  then show ?thesis
    by (simp add: resolveDns_def st await_all_complete)
qed

lemma task_nth:
  assumes "i < length types"
  shows "\<exists>r. settle (fst (start_tasks dns domain types log) ! i) = Fulfilled r
     \<and> type r = types ! i \<and> (error r = None \<or> records r = [])"
proof -
  obtain r where "fst (resolveType dns domain (types ! i) []) = Inr r" "type r = types ! i"
      "error r = None \<or> records r = []"
    using resolveType_fulfilled by blast
  then show ?thesis
    using assms by (simp add: start_tasks_fst settle_def)
qed

text \<open>
  C1: when every per-type task settles, in whatever order, \<open>resolveDns\<close> returns a list
  with one entry per requested type, the entry at each index having the type at that
  index of the input; the list is the one returned when the tasks settle in input order,
  whatever the resolver answers. It calls the resolver once per requested type; for the
  empty type list it returns the empty list and leaves the call log as it was: no
  resolver method is called.
\<close>

theorem resolveDns_positional:
  assumes "mset order = mset [0..<length types]"
  shows "(\<exists>rs. fst (resolveDns dns domain types order log) = Some (Inr rs)
            \<and> length rs = length types
            \<and> (\<forall>i < length types. type (rs ! i) = types ! i))
       \<and> fst (resolveDns dns domain types order log)
           = fst (resolveDns dns domain types [0..<length types] log)
       \<and> length (snd (resolveDns dns domain types order log)) = length log + length types
       \<and> resolveDns dns domain [] order log = (Some (Inr []), log)"
proof (intro conjI)
  let ?tasks = "fst (start_tasks dns domain types log)"
  let ?rs = "join_results types (map settle ?tasks)"
  have len: "length ?tasks = length types" by (simp add: start_tasks_fst)
  have "\<forall>i < length types. type (?rs ! i) = types ! i"
  proof (intro allI impI)
    fix i assume i: "i < length types"
    obtain r where "settle (?tasks ! i) = Fulfilled r" "type r = types ! i"
      using task_nth[OF i] by blast
    then show "type (?rs ! i) = types ! i"
      using i len by (simp add: join_results_nth join_result_def)
  qed
  then show "\<exists>rs. fst (resolveDns dns domain types order log) = Some (Inr rs)
            \<and> length rs = length types
            \<and> (\<forall>i < length types. type (rs ! i) = types ! i)"
    using resolveDns_complete[OF assms] len by (simp add: join_results_length)
  show "fst (resolveDns dns domain types order log)
           = fst (resolveDns dns domain types [0..<length types] log)"
    using resolveDns_complete[OF assms] resolveDns_complete[of "[0..<length types]" types]
    by simp
  show "length (snd (resolveDns dns domain types order log)) = length log + length types"
    using start_tasks_log_length[of dns domain types log]
    by (cases "start_tasks dns domain types log") (simp add: resolveDns_def)
  have "settle_in_order order ([] :: DnsResult promise list) [] = []"
    using settle_in_order_length[of order "[] :: DnsResult promise list" "[]"] by simp
  then show "resolveDns dns domain [] order log = (Some (Inr []), log)"
    by (simp add: resolveDns_def await_all_def allSettled_def join_results_def)
qed

theorem resolveDns_positional_witness:
  "mset [2, 0, 1] = mset [0..<length [NS, A, TXT]]
   \<and> resolveDns mock_dns ''example.com'' [NS, A, TXT] [2, 0, 1] []
     = (Some (Inr [\<lparr>type = NS, records = [''ns1.example.com''], error = None\<rparr>,
                  \<lparr>type = A, records = [''93.184.216.34''], error = None\<rparr>,
                  \<lparr>type = TXT,
                   records = [''v=spf1 include:_spf.example.com ~all'',
                              ''google-site-verification=abc123''],
                   error = None\<rparr>]),
        [(''resolveNs'', ''example.com''), (''resolve4'', ''example.com''),
         (''resolveTxt'', ''example.com'')])"
proof -
  have h: "mset [2, 0, 1] = mset [0..<length [NS, A, TXT]]"
    by (simp add: upt_rec)
  have e: "resolveDns mock_dns ''example.com'' [NS, A, TXT] [2, 0, 1] []
     = (Some (Inr [\<lparr>type = NS, records = [''ns1.example.com''], error = None\<rparr>,
                  \<lparr>type = A, records = [''93.184.216.34''], error = None\<rparr>,
                  \<lparr>type = TXT,
                   records = [''v=spf1 include:_spf.example.com ~all'',
                              ''google-site-verification=abc123''],
                   error = None\<rparr>]),
        [(''resolveNs'', ''example.com''), (''resolve4'', ''example.com''),
         (''resolveTxt'', ''example.com'')])"
    by code_simp
  show ?thesis
    using h e resolveDns_positional [OF h, of mock_dns "''example.com''" "[]"] by simp
qed


text \<open>
  C2: in every result of the list \<open>resolveDns\<close> returns, non-empty records come with no
  error and an error comes with empty records; the result built at the join for a
  rejected task has empty records too.
\<close>

theorem exclusivity_invariant:
  assumes "fst (resolveDns dns domain types order log) = Some (Inr rs)"
    and "r \<in> set rs"
  shows "(records r \<noteq> [] \<longrightarrow> error r = None) \<and> (error r \<noteq> None \<longrightarrow> records r = [])
    \<and> records (join_result types index (Rejected reason)) = []"
proof -
  let ?tasks = "fst (start_tasks dns domain types log)"
  obtain results where a: "allSettled order ?tasks = Some results"
    and rs: "rs = join_results types results"
    using assms(1)
    by (auto simp: resolveDns_def await_all_def split: prod.splits option.splits)
  obtain i where i: "i < length results" and r: "r = join_result types i (results ! i)"
    using assms(2) rs
    by (metis in_set_conv_nth join_results_length join_results_nth)
  let ?slots = "settle_in_order order ?tasks (replicate (length ?tasks) None)"
  have all: "list_all (\<lambda>slot. slot \<noteq> None) ?slots" and res: "results = map the ?slots"
    using a by (auto simp: allSettled_def Let_def split: if_splits)
  have len: "length results = length ?tasks"
    using res by (simp add: settle_in_order_length)
  have lt: "length ?tasks = length types" by (simp add: start_tasks_fst)
  have "?slots ! i \<noteq> None"
    using all i len by (simp add: list_all_length settle_in_order_length)
  then have "?slots ! i = Some (settle (?tasks ! i))"
    using settle_in_order_nth[of "replicate (length ?tasks) None" ?tasks i order] i len
    by (auto split: if_splits)
  then have "results ! i = settle (?tasks ! i)"
    using res i len by (simp add: settle_in_order_length)
  moreover obtain v where "settle (?tasks ! i) = Fulfilled v" "error v = None \<or> records v = []"
    using task_nth[of i types dns domain log] i len lt by auto
  ultimately have "r = v" using r by (simp add: join_result_def)
  then show ?thesis using \<open>error v = None \<or> records v = []\<close>
    by (auto simp: join_result_def)
qed

theorem exclusivity_invariant_witness:
  "fst (resolveDns mock_dns ''example.com'' [A, AAAA, CNAME] [1, 2, 0] [])
     = Some (Inr [\<lparr>type = A, records = [''93.184.216.34''], error = None\<rparr>,
                 \<lparr>type = AAAA, records = [], error = None\<rparr>,
                 \<lparr>type = CNAME, records = [], error = Some ''Connection refused''\<rparr>])
   \<and> \<lparr>type = CNAME, records = [], error = Some ''Connection refused''\<rparr>
       \<in> set [\<lparr>type = A, records = [''93.184.216.34''], error = None\<rparr>,
               \<lparr>type = AAAA, records = [], error = None\<rparr>,
               \<lparr>type = CNAME, records = [], error = Some ''Connection refused''\<rparr>]
   \<and> records \<lparr>type = CNAME, records = [], error = Some ''Connection refused''\<rparr> = []"
proof -
  have h: "fst (resolveDns mock_dns ''example.com'' [A, AAAA, CNAME] [1, 2, 0] [])
     = Some (Inr [\<lparr>type = A, records = [''93.184.216.34''], error = None\<rparr>,
                 \<lparr>type = AAAA, records = [], error = None\<rparr>,
                 \<lparr>type = CNAME, records = [], error = Some ''Connection refused''\<rparr>])"
    by code_simp
  have m: "\<lparr>type = CNAME, records = [], error = Some ''Connection refused''\<rparr>
       \<in> set [\<lparr>type = A, records = [''93.184.216.34''], error = None\<rparr>,
               \<lparr>type = AAAA, records = [], error = None\<rparr>,
               \<lparr>type = CNAME, records = [], error = Some ''Connection refused''\<rparr>]"
    by simp
  show ?thesis
    using h m exclusivity_invariant [OF h m, where index = 0 and reason = None] by simp
qed

text \<open>
  C9: a call of \<open>resolveType\<close> always fulfils with a result, whatever the resolver
  does; the promise of \<open>resolveDns\<close> is never rejected, and it fulfils with a list of
  the length of the type list once every task has settled. Should a task be rejected all
  the same, the join puts at its position a result with the type of that position, no
  records and an error: the message of the rejection reason, or \<open>Unknown error\<close>.
\<close>

theorem resolveDns_never_rejects:
  "(\<exists>r. fst (resolveType dns domain t log) = Inr r)
   \<and> fst (resolveDns dns domain types order log) \<noteq> Some (Inl reason)
   \<and> (mset order = mset [0..<length types] \<longrightarrow>
        (\<exists>rs. fst (resolveDns dns domain types order log) = Some (Inr rs)
              \<and> length rs = length types))
   \<and> (mset order = mset [0..<length tasks] \<and> length tasks = length types
        \<and> i < length tasks \<and> tasks ! i = Inl rejection \<longrightarrow>
        (\<exists>rs e. await_all types order tasks = Some (Inr rs) \<and> length rs = length types
           \<and> rs ! i = \<lparr>type = types ! i, records = [], error = Some e\<rparr>
           \<and> e = (case rejection of None \<Rightarrow> ''Unknown error''
                   | Some x \<Rightarrow> (case message x of None \<Rightarrow> ''Unknown error'' | Some m \<Rightarrow> m))))"
proof (intro conjI impI)
  show "\<exists>r. fst (resolveType dns domain t log) = Inr r"
    using resolveType_fulfilled by blast
  show "fst (resolveDns dns domain types order log) \<noteq> Some (Inl reason)"
    by (simp add: resolveDns_def await_all_not_rejected split: prod.splits)
next
  assume "mset order = mset [0..<length types]"
  then show "\<exists>rs. fst (resolveDns dns domain types order log) = Some (Inr rs)
              \<and> length rs = length types"
    by (simp add: resolveDns_complete join_results_length start_tasks_fst)
next
  assume a: "mset order = mset [0..<length tasks] \<and> length tasks = length types
        \<and> i < length tasks \<and> tasks ! i = Inl rejection"
  then have "await_all types order tasks = Some (Inr (join_results types (map settle tasks)))"
    by (simp add: await_all_complete)
  moreover have "join_results types (map settle tasks) ! i
      = \<lparr>type = types ! i, records = [],
         error = Some (case rejection of None \<Rightarrow> ''Unknown error''
                   | Some x \<Rightarrow> (case message x of None \<Rightarrow> ''Unknown error'' | Some m \<Rightarrow> m))\<rparr>"
    using a by (simp add: join_results_nth join_result_def settle_def)
  ultimately show "\<exists>rs e. await_all types order tasks = Some (Inr rs) \<and> length rs = length types
           \<and> rs ! i = \<lparr>type = types ! i, records = [], error = Some e\<rparr>
           \<and> e = (case rejection of None \<Rightarrow> ''Unknown error''
                   | Some x \<Rightarrow> (case message x of None \<Rightarrow> ''Unknown error'' | Some m \<Rightarrow> m))"
    using a by (simp add: join_results_length)
qed


theorem resolveDns_never_rejects_witness:
  "mset [1, 2, 0] = mset [0..<length [A, MX, NS]]
   \<and> fst (resolveDns mock_dns ''example.com'' [A, MX, NS] [1, 2, 0] [])
     = Some (Inr [\<lparr>type = A, records = [''93.184.216.34''], error = None\<rparr>,
                 \<lparr>type = MX,
                  records = [''0 . (null MX '' @ em_dash @ '' domain does not accept mail)'',
                             ''10 mx1.example.com'', ''10 mx0.example.com'',
                             ''20 mx2.example.com''],
                  error = None\<rparr>,
                 \<lparr>type = NS, records = [''ns1.example.com''], error = None\<rparr>])
   \<and> await_all [A, MX, NS] [1, 2, 0]
        [Inr \<lparr>type = A, records = [''93.184.216.34''], error = None\<rparr>,
         Inl None,
         Inl (Some \<lparr>code = None, message = Some ''socket hang up''\<rparr>)]
     = Some (Inr [\<lparr>type = A, records = [''93.184.216.34''], error = None\<rparr>,
                 \<lparr>type = MX, records = [], error = Some ''Unknown error''\<rparr>,
                 \<lparr>type = NS, records = [], error = Some ''socket hang up''\<rparr>])"
proof -
  have h: "mset [1, 2, 0] = mset [0..<length [A, MX, NS]]"
    by (simp add: upt_rec)
  have e1: "fst (resolveDns mock_dns ''example.com'' [A, MX, NS] [1, 2, 0] [])
     = Some (Inr [\<lparr>type = A, records = [''93.184.216.34''], error = None\<rparr>,
                 \<lparr>type = MX,
                  records = [''0 . (null MX '' @ em_dash @ '' domain does not accept mail)'',
                             ''10 mx1.example.com'', ''10 mx0.example.com'',
                             ''20 mx2.example.com''],
                  error = None\<rparr>,
                 \<lparr>type = NS, records = [''ns1.example.com''], error = None\<rparr>])"
    by code_simp
  have e2: "await_all [A, MX, NS] [1, 2, 0]
        [Inr \<lparr>type = A, records = [''93.184.216.34''], error = None\<rparr>,
         Inl None,
         Inl (Some \<lparr>code = None, message = Some ''socket hang up''\<rparr>)]
     = Some (Inr [\<lparr>type = A, records = [''93.184.216.34''], error = None\<rparr>,
                 \<lparr>type = MX, records = [], error = Some ''Unknown error''\<rparr>,
                 \<lparr>type = NS, records = [], error = Some ''socket hang up''\<rparr>])"
    by code_simp
  show ?thesis
    using h e1 e2
      resolveDns_never_rejects [where dns = mock_dns and domain = "''example.com''"
        and types = "[A, MX, NS]" and order = "[1, 2, 0]" and log = "[]" and t = A
        and tasks = "[Inr \<lparr>type = A, records = [''93.184.216.34''], error = None\<rparr>,
                      Inl None,
                      Inl (Some \<lparr>code = None, message = Some ''socket hang up''\<rparr>)]"
        and i = 1 and rejection = None and reason = None]
    by simp
qed

section \<open>formatTable: short mode\<close>

lemma loop_body_skip:
  "short \<and> empty_without_error_text r \<Longrightarrow>
     loop_body chalk toString short (lines, has) r = (lines, has)"
  by (simp add: loop_body_def empty_without_error_text_def)

lemma loop_body_push:
  "\<not> (short \<and> empty_without_error_text r) \<Longrightarrow>
     loop_body chalk toString short (lines, has) r
       = (lines @ block chalk toString r, has \<or> \<not> empty_without_error_text r)"
  by (auto simp: loop_body_def block_def empty_without_error_text_def)

lemma foldl_loop_body:
  "foldl (loop_body chalk toString short) (lines, has) results
     = (lines @ concat (map (block chalk toString)
                  (filter (\<lambda>r. \<not> (short \<and> empty_without_error_text r)) results)),
        has \<or> \<not> list_all empty_without_error_text results)"
proof (induction results arbitrary: lines has)
  case Nil
  show ?case by simp
next
  case (Cons r results)
  show ?case
  proof (cases "short \<and> empty_without_error_text r")
    case True
    then show ?thesis using Cons.IH[of lines has] by (simp add: loop_body_skip)
  next
    case False
    then show ?thesis
      using Cons.IH[of "lines @ block chalk toString r" "has \<or> \<not> empty_without_error_text r"]
      by (auto simp: loop_body_push)
  qed
qed

lemma block_not_empty: "block chalk toString r \<noteq> []"
  by (simp add: block_def loop_body_def)

text \<open>
  C6, amended: the lines of the table are the header, then the blocks of the results in
  input order, short mode leaving out exactly the results that have empty records and an
  absent or empty error, then the two lines of the summary exactly when the mode is short
  and every result was left out. Every block has at least one line, and without short
  mode every result has its block and there is no summary.
\<close>

theorem compact_omits_empty_blocks:
  "formatTable_lines chalk toString domain results short
     = block_layout empty_without_error_text chalk toString domain results short
   \<and> block chalk toString r \<noteq> []
   \<and> formatTable_lines chalk toString domain results False
     = header chalk domain @ concat (map (block chalk toString) results)"
  by (simp add: formatTable_lines_def foldl_loop_body block_layout_def summary_def
      block_not_empty)

theorem compact_omits_empty_blocks_witness:
  "formatTable_lines plain_chalk plain_table ''example.com''
      [\<lparr>type = A, records = [], error = Some ''Timeout''\<rparr>,
       \<lparr>type = AAAA, records = [], error = None\<rparr>] True
     = header plain_chalk ''example.com''
         @ [''  '' @ [CHR 0xE2, CHR 0x9C, CHR 0x96] @ '' A (IPv4)'', ''    Error: Timeout'', []]
   \<and> formatTable_lines plain_chalk plain_table ''example.com''
      [\<lparr>type = A, records = [], error = None\<rparr>,
       \<lparr>type = AAAA, records = [], error = None\<rparr>] True
     = header plain_chalk ''example.com'' @ [''  No DNS records found.'', []]"
  using compact_omits_empty_blocks [of plain_chalk plain_table "''example.com''"
      "[\<lparr>type = A, records = [], error = Some ''Timeout''\<rparr>,
        \<lparr>type = AAAA, records = [], error = None\<rparr>]" True
      "\<lparr>type = A, records = [], error = Some ''Timeout''\<rparr>"]
    compact_omits_empty_blocks [of plain_chalk plain_table "''example.com''"
      "[\<lparr>type = A, records = [], error = None\<rparr>,
        \<lparr>type = AAAA, records = [], error = None\<rparr>]" True
      "\<lparr>type = A, records = [], error = None\<rparr>"]
  by (simp add: block_layout_def block_def loop_body_def empty_without_error_text_def
      truthy_def summary_def plain_chalk_def template_def label_of_def TYPE_LABELS_def)

text \<open>
  C6 as stated, with "no error" read as the absence of the \<open>error\<close> key, fails: a result
  with empty records and the empty string as its error is left out in short mode, and the
  summary is printed.
\<close>

theorem compact_omits_empty_blocks_counterexample:
  "formatTable_lines plain_chalk plain_table ''example.com''
      [\<lparr>type = A, records = [], error = Some []\<rparr>] True
   \<noteq> block_layout empty_without_error_key plain_chalk plain_table ''example.com''
      [\<lparr>type = A, records = [], error = Some []\<rparr>] True"
  by (simp add: formatTable_lines_def loop_body_def block_layout_def block_def
      empty_without_error_key_def truthy_def header_def summary_def plain_chalk_def template_def)

section \<open>JSON: parsing what was serialized\<close>

lemma hex_value_hex_digit: "k < 16 \<Longrightarrow> hex_value (hex_digit k) = Some k"
proof -
  assume "k < 16"
  then have "k \<in> set [0..<16]" by simp
  moreover have "\<forall>k \<in> set [0..<16]. hex_value (hex_digit k) = Some k"
    by code_simp
  ultimately show ?thesis by blast
qed

lemma unicode_escape_low:
  assumes "(of_char c :: nat) < 0x20"
  shows "unicode_escape (CHR ''0'') (CHR ''0'') (hex_digit (of_char c div 16))
           (hex_digit (of_char c mod 16)) = Some c"
proof -
  have a: "(of_char c :: nat) div 16 < 16" using assms by simp
  have b: "(of_char c :: nat) mod 16 < 16" by simp
  have z: "hex_value (CHR ''0'') = Some 0" by (simp add: hex_value_def)
  have "(of_char c :: nat) < 0x80" using assms by simp
  then show ?thesis
    using hex_value_hex_digit[OF a] hex_value_hex_digit[OF b] z
    by (simp add: unicode_escape_def Let_def)
qed

lemma parse_quote_char:
  "parse_string_body (quote_char c @ rest)
     = (case parse_string_body rest of None \<Rightarrow> None | Some (s, r) \<Rightarrow> Some (c # s, r))"
proof -
  consider (named) "c \<in> {CHR 0x08, CHR 0x09, CHR 0x0A, CHR 0x0C, CHR 0x0D, CHR 0x22, CHR 0x5C}"
    | (low) "c \<notin> {CHR 0x08, CHR 0x09, CHR 0x0A, CHR 0x0C, CHR 0x0D, CHR 0x22, CHR 0x5C}"
        "(of_char c :: nat) < 0x20"
    | (plain) "c \<notin> {CHR 0x08, CHR 0x09, CHR 0x0A, CHR 0x0C, CHR 0x0D, CHR 0x22, CHR 0x5C}"
        "\<not> (of_char c :: nat) < 0x20"
    by blast
  then show ?thesis
  proof cases
    case named
    then show ?thesis
      by (auto simp: quote_char_def simple_escape_def)
  next
    case low
    then show ?thesis
      using unicode_escape_low[OF low(2)]
      by (simp add: quote_char_def)
  next
    case plain
    then show ?thesis
      by (simp add: quote_char_def)
  qed
qed

lemma parse_closing_quote: "parse_string_body (CHR 0x22 # rest) = Some ([], rest)"
  by simp

lemma parse_quoted:
  "parse_string_body (concat (map quote_char s) @ CHR 0x22 # rest) = Some (s, rest)"
  by (induction s)
    (simp_all add: parse_quote_char parse_closing_quote del: parse_string_body.simps(2))

lemma parse_QuoteJSONString:
  "QuoteJSONString s @ rest = CHR 0x22 # concat (map quote_char s) @ CHR 0x22 # rest"
  by (simp add: QuoteJSONString_def)


lemma skip_ws_append: "\<forall>c \<in> set w. is_ws c \<Longrightarrow> skip_ws (w @ t) = skip_ws t"
  by (induction w) (simp_all add: skip_ws_def)

lemma skip_ws_Cons: "\<not> is_ws c \<Longrightarrow> skip_ws (c # t) = c # t"
  by (simp add: skip_ws_def)

lemma value_start_not_ws: "value_start c \<Longrightarrow> \<not> is_ws c"
  by (auto simp: value_start_def is_ws_def)

lemma serialize_start: "\<exists>c t. serialize gap indent v = c # t \<and> value_start c"
  by (cases v) (auto simp: value_start_def QuoteJSONString_def Let_def)

lemma serialize_JArray:
  "xs \<noteq> [] \<Longrightarrow> serialize gap indent (JArray xs)
     = CHR ''['' # line_break gap (indent @ gap)
         @ js_join (CHR '','' # line_break gap (indent @ gap)) (map (serialize gap (indent @ gap)) xs)
         @ line_break gap indent @ '']''"
  by (simp add: line_break_def)

lemma serialize_JObject:
  "ps \<noteq> [] \<Longrightarrow> serialize gap indent (JObject ps)
     = CHR ''{'' # line_break gap (indent @ gap)
         @ js_join (CHR '','' # line_break gap (indent @ gap))
             (map (\<lambda>p. QuoteJSONString (fst p) @ CHR '':'' # (if gap = [] then [] else '' '')
                        @ serialize gap (indent @ gap) (snd p)) ps)
         @ line_break gap indent @ ''}''"
  by (simp add: line_break_def)

lemma line_break_ws:
  "\<forall>c \<in> set gap. is_ws c \<Longrightarrow> \<forall>c \<in> set indent. is_ws c \<Longrightarrow>
     \<forall>c \<in> set (line_break gap indent). is_ws c"
  by (auto simp: line_break_def is_ws_def)

lemma js_join_start:
  assumes "xs \<noteq> []" and "\<exists>c t. f (hd xs) = c # t \<and> value_start c"
  shows "\<exists>c t. js_join sep (map f xs) = c # t \<and> value_start c"
proof (cases xs)
  case Nil
  then show ?thesis using assms by simp
next
  case (Cons x ys)
  then show ?thesis using assms by (cases ys) auto
qed

lemma skip_ws_value:
  assumes "\<forall>c \<in> set w. is_ws c" and "\<exists>c t. s = c # t \<and> value_start c"
  shows "skip_ws (w @ s @ r) = s @ r"
proof -
  obtain c t where s: "s = c # t" and c: "value_start c" using assms(2) by blast
  show ?thesis
    using skip_ws_append[OF assms(1), of "s @ r"] value_start_not_ws[OF c]
    by (simp add: s skip_ws_Cons)
qed

lemma parse_elements_join:
  assumes w1: "\<forall>c \<in> set w1. is_ws c" and w2: "\<forall>c \<in> set w2. is_ws c"
  shows "xs \<noteq> [] \<Longrightarrow>
    (\<And>x n rest. x \<in> set xs \<Longrightarrow> 2 * length (f x) \<le> n \<Longrightarrow>
        parse_value n (f x @ rest) = Some (x, rest)) \<Longrightarrow>
    (\<And>x. x \<in> set xs \<Longrightarrow> \<exists>c t. f x = c # t \<and> value_start c) \<Longrightarrow>
    2 * length (js_join (CHR '','' # w1) (map f xs) @ w2 @ '']'') \<le> m \<Longrightarrow>
    parse_elements m (js_join (CHR '','' # w1) (map f xs) @ w2 @ '']'' @ rest) = Some (xs, rest)"
proof (induction xs arbitrary: m)
  case Nil
  then show ?case by simp
next
  case (Cons x ys)
  note prems = Cons.prems and IH = Cons.IH
  obtain n where m: "m = Suc n" using prems(4) by (cases m) auto
  have closing: "skip_ws (w2 @ CHR '']'' # rest) = CHR '']'' # rest"
    using skip_ws_append[OF w2, of "CHR '']'' # rest"] by (simp add: skip_ws_Cons is_ws_def)
  show ?case
  proof (cases ys)
    case Nil
    note ys = Nil
    have "2 * length (f x) \<le> n" using prems(4) m ys by simp
    then have "parse_value n (f x @ w2 @ CHR '']'' # rest) = Some (x, w2 @ CHR '']'' # rest)"
      using prems(2)[of x n] by simp
    then show ?thesis using closing by (simp add: m ys)
  next
    case (Cons y zs)
    note ys = Cons
    let ?tail = "js_join (CHR '','' # w1) (map f ys) @ w2 @ '']''"
    have shape: "js_join (CHR '','' # w1) (map f (x # ys)) @ w2 @ '']'' @ rest
        = f x @ CHR '','' # w1 @ ?tail @ rest"
      by (simp add: ys)
    have len: "length (js_join (CHR '','' # w1) (map f (x # ys)) @ w2 @ '']'')
        = length (f x) + 1 + length w1 + length ?tail"
      by (simp add: ys)
    have "2 * length (f x) \<le> n" using prems(4) m len by simp
    then have v: "parse_value n (f x @ CHR '','' # w1 @ ?tail @ rest)
        = Some (x, CHR '','' # w1 @ ?tail @ rest)"
      using prems(2)[of x n] by simp
    have "\<exists>c t. js_join (CHR '','' # w1) (map f ys) = c # t \<and> value_start c"
      using js_join_start[of ys f] prems(3) ys by simp
    then have "\<exists>c t. ?tail = c # t \<and> value_start c" by auto
    then have sk: "skip_ws (w1 @ ?tail @ rest) = ?tail @ rest"
      using skip_ws_value[OF w1] by blast
    have "2 * length ?tail \<le> n" using prems(4) m len by simp
    then have "parse_elements n (?tail @ rest) = Some (ys, rest)"
      using IH[of n] prems(2,3) ys by simp
    then have "parse_elements (Suc n) (f x @ CHR '','' # w1 @ ?tail @ rest) = Some (x # ys, rest)"
      using v sk by (simp add: skip_ws_Cons is_ws_def del: js_join.simps)
    then show ?thesis
      by (simp only: m shape)
  qed
qed


lemma parse_member:
  assumes sp: "\<forall>c \<in> set sp. is_ws c"
    and v: "parse_value n (fv @ r) = Some (v, r)"
    and start: "\<exists>c t. fv = c # t \<and> value_start c"
  shows "parse_string_body (concat (map quote_char k) @ CHR 0x22 # CHR '':'' # sp @ fv @ r)
           = Some (k, CHR '':'' # sp @ fv @ r)
       \<and> skip_ws (CHR '':'' # sp @ fv @ r) = CHR '':'' # sp @ fv @ r
       \<and> parse_value n (skip_ws (sp @ fv @ r)) = Some (v, r)"
  using parse_quoted[of k "CHR '':'' # sp @ fv @ r"] skip_ws_value[OF sp start, of r] v
  by (simp add: skip_ws_Cons is_ws_def)

lemma parse_members_join:
  assumes w1: "\<forall>c \<in> set w1. is_ws c" and w2: "\<forall>c \<in> set w2. is_ws c"
    and sp: "\<forall>c \<in> set sp. is_ws c"
  shows "ps \<noteq> [] \<Longrightarrow>
    (\<And>p n rest. p \<in> set ps \<Longrightarrow> 2 * length (f (snd p)) \<le> n \<Longrightarrow>
        parse_value n (f (snd p) @ rest) = Some (snd p, rest)) \<Longrightarrow>
    (\<And>p. p \<in> set ps \<Longrightarrow> \<exists>c t. f (snd p) = c # t \<and> value_start c) \<Longrightarrow>
    2 * length (js_join (CHR '','' # w1)
                  (map (\<lambda>p. QuoteJSONString (fst p) @ CHR '':'' # sp @ f (snd p)) ps)
                @ w2 @ ''}'') \<le> m \<Longrightarrow>
    parse_members m (js_join (CHR '','' # w1)
                       (map (\<lambda>p. QuoteJSONString (fst p) @ CHR '':'' # sp @ f (snd p)) ps)
                     @ w2 @ ''}'' @ rest) = Some (ps, rest)"
proof (induction ps arbitrary: m)
  case Nil
  then show ?case by simp
next
  case (Cons p qs)
  note prems = Cons.prems and IH = Cons.IH
  let ?g = "\<lambda>p. QuoteJSONString (fst p) @ CHR '':'' # sp @ f (snd p)"
  obtain n where m: "m = Suc n" using prems(4) by (cases m) auto
  have closing: "skip_ws (w2 @ CHR ''}'' # rest) = CHR ''}'' # rest"
    using skip_ws_append[OF w2, of "CHR ''}'' # rest"] by (simp add: skip_ws_Cons is_ws_def)
  have start: "\<exists>c t. f (snd p) = c # t \<and> value_start c" using prems(3) by simp
  have glen: "length (?g p) = length (QuoteJSONString (fst p)) + 1 + length sp + length (f (snd p))"
    by simp
  have gshape: "\<And>r. ?g p @ r
      = CHR 0x22 # concat (map quote_char (fst p)) @ CHR 0x22 # CHR '':'' # sp @ f (snd p) @ r"
    by (simp add: QuoteJSONString_def)
  show ?case
  proof (cases qs)
    case Nil
    note qs = Nil
    have "2 * length (f (snd p)) \<le> n" using prems(4) m qs by simp
    then have "parse_value n (f (snd p) @ w2 @ CHR ''}'' # rest) = Some (snd p, w2 @ CHR ''}'' # rest)"
      using prems(2)[of p n] by simp
    from parse_member[OF sp this start, of "fst p"]
    have "parse_members (Suc n) (CHR 0x22 # concat (map quote_char (fst p)) @ CHR 0x22 # CHR '':''
             # sp @ f (snd p) @ w2 @ CHR ''}'' # rest) = Some ([p], rest)"
      using closing by simp
    then have "parse_members (Suc n) (?g p @ w2 @ CHR ''}'' # rest) = Some ([p], rest)"
      by (simp only: gshape)
    then show ?thesis by (simp add: m qs)
  next
    case (Cons q rs)
    note qs = Cons
    let ?tail = "js_join (CHR '','' # w1) (map ?g qs) @ w2 @ ''}''"
    have shape: "js_join (CHR '','' # w1) (map ?g (p # qs)) @ w2 @ ''}'' @ rest
        = ?g p @ CHR '','' # w1 @ ?tail @ rest"
      by (simp add: qs)
    have len: "length (js_join (CHR '','' # w1) (map ?g (p # qs)) @ w2 @ ''}'')
        = length (?g p) + 1 + length w1 + length ?tail"
      by (simp add: qs)
    have "2 * length (f (snd p)) \<le> n" using prems(4) m len glen by simp
    then have v: "parse_value n (f (snd p) @ CHR '','' # w1 @ ?tail @ rest)
        = Some (snd p, CHR '','' # w1 @ ?tail @ rest)"
      using prems(2)[of p n] by simp
    have "\<exists>c t. ?tail = c # t \<and> value_start c"
      by (simp add: qs QuoteJSONString_def value_start_def js_join_Cons del: js_join.simps)
    then have sk: "skip_ws (w1 @ ?tail @ rest) = ?tail @ rest"
      using skip_ws_value[OF w1] by blast
    have "2 * length ?tail \<le> n" using prems(4) m len by simp
    then have t: "parse_members n (?tail @ rest) = Some (qs, rest)"
      using IH[of n] prems(2,3) qs by simp
    from parse_member[OF sp v start, of "fst p"]
    have "parse_members (Suc n) (CHR 0x22 # concat (map quote_char (fst p)) @ CHR 0x22 # CHR '':''
             # sp @ f (snd p) @ CHR '','' # w1 @ ?tail @ rest) = Some (p # qs, rest)"
      using sk t by (simp add: skip_ws_Cons is_ws_def del: js_join.simps)
    then have "parse_members (Suc n) (?g p @ CHR '','' # w1 @ ?tail @ rest) = Some (p # qs, rest)"
      by (simp only: gshape)
    then show ?thesis
      by (simp only: m shape)
  qed
qed

lemma define_property_fresh:
  "k \<notin> fst ` set ps \<Longrightarrow> define_property k v ps = ps @ [(k, v)]"
  by (induction ps) auto

lemma foldl_define_property:
  "distinct (map fst (acc @ ms)) \<Longrightarrow>
     foldl (\<lambda>ps (k, v). define_property k v ps) acc ms = acc @ ms"
proof (induction ms arbitrary: acc)
  case Nil
  show ?case by simp
next
  case (Cons m ms)
  obtain k v where m: "m = (k, v)" by (cases m)
  have "k \<notin> fst ` set acc" using Cons.prems m by auto
  then have "define_property k v acc = acc @ [(k, v)]" by (rule define_property_fresh)
  then show ?case using Cons.IH[of "acc @ [(k, v)]"] Cons.prems m by simp
qed

lemma object_of_distinct: "distinct (map fst ps) \<Longrightarrow> object_of ps = JObject ps"
  using foldl_define_property[of "[]" ps] by (simp add: object_of_def)

lemma parse_array_text:
  assumes "parse_elements n (E @ r) = Some (xs, r)"
    and "\<exists>c t. E = c # t \<and> value_start c"
    and "\<forall>c \<in> set w. is_ws c"
  shows "parse_value (Suc n) (CHR ''['' # w @ E @ r) = Some (JArray xs, r)"
proof -
  obtain c t where E: "E = c # t" and c: "value_start c" using assms(2) by blast
  have "skip_ws (w @ E @ r) = c # t @ r"
    using skip_ws_value[OF assms(3) assms(2), of r] E by simp
  moreover have "c \<noteq> CHR '']''" using c by (auto simp: value_start_def)
  ultimately show ?thesis using assms(1) E by simp
qed

lemma parse_object_text:
  assumes "parse_members n (M @ r) = Some (ps, r)"
    and "\<exists>c t. M = c # t \<and> value_start c"
    and "\<forall>c \<in> set w. is_ws c"
    and "distinct (map fst ps)"
  shows "parse_value (Suc n) (CHR ''{'' # w @ M @ r) = Some (JObject ps, r)"
proof -
  obtain c t where M: "M = c # t" and c: "value_start c" using assms(2) by blast
  have "skip_ws (w @ M @ r) = c # t @ r"
    using skip_ws_value[OF assms(3) assms(2), of r] M by simp
  moreover have "c \<noteq> CHR ''}''" using c by (auto simp: value_start_def)
  ultimately show ?thesis using assms(1) M object_of_distinct[OF assms(4)] by simp
qed

lemma parse_serialize:
  assumes gap: "\<forall>c \<in> set gap. is_ws c"
  shows "\<forall>c \<in> set indent. is_ws c \<Longrightarrow> distinct_keys v \<Longrightarrow>
     2 * length (serialize gap indent v) \<le> n \<Longrightarrow>
     parse_value n (serialize gap indent v @ rest) = Some (v, rest)"
proof (induction v arbitrary: indent n rest)
  case JNull
  then obtain k where "n = Suc k" by (cases n) auto
  then show ?case by simp
next
  case (JBool b)
  then obtain k where "n = Suc k" by (cases n) (auto split: if_splits)
  then show ?case by (cases b) simp_all
next
  case (JString s)
  then obtain k where "n = Suc k" by (cases n) (auto simp: QuoteJSONString_def)
  then show ?case by (simp add: QuoteJSONString_def parse_quoted)
next
  case (JArray xs)
  note prems = JArray.prems and IH = JArray.IH
  show ?case
  proof (cases "xs = []")
    case True
    obtain k where "n = Suc k" using prems True by (cases n) auto
    then show ?thesis using True by (simp add: skip_ws_Cons is_ws_def)
  next
    case False
    let ?ind = "indent @ gap"
    let ?w1 = "line_break gap ?ind" and ?w2 = "line_break gap indent"
    let ?E = "js_join (CHR '','' # ?w1) (map (serialize gap ?ind) xs) @ ?w2 @ '']''"
    have ind: "\<forall>c \<in> set ?ind. is_ws c" using prems(1) gap by auto
    have w1: "\<forall>c \<in> set ?w1. is_ws c" using line_break_ws[OF gap ind] .
    have w2: "\<forall>c \<in> set ?w2. is_ws c" using line_break_ws[OF gap prems(1)] .
    have shape: "serialize gap indent (JArray xs) = CHR ''['' # ?w1 @ ?E"
      using serialize_JArray[OF False] by simp
    have total: "2 * length (CHR ''['' # ?w1 @ ?E) \<le> n" using prems(3) by (simp only: shape)
    then obtain k where n: "n = Suc k" by (cases n) auto
    have fuel: "2 * length ?E \<le> k" using total n by simp
    have each: "\<And>x m r. x \<in> set xs \<Longrightarrow> 2 * length (serialize gap ?ind x) \<le> m \<Longrightarrow>
        parse_value m (serialize gap ?ind x @ r) = Some (x, r)"
      using IH[OF _ ind] prems(2) by simp
    have starts: "\<And>x. x \<in> set xs \<Longrightarrow> \<exists>c t. serialize gap ?ind x = c # t \<and> value_start c"
      using serialize_start by blast
    have "parse_elements k (?E @ rest) = Some (xs, rest)"
      using parse_elements_join[OF w1 w2 False each starts fuel, of rest] by simp
    moreover have "\<exists>c t. ?E = c # t \<and> value_start c"
      using js_join_start[OF False, of "serialize gap ?ind" "CHR '','' # ?w1"] serialize_start
      by fastforce
    ultimately have "parse_value (Suc k) (CHR ''['' # ?w1 @ ?E @ rest) = Some (JArray xs, rest)"
      using parse_array_text[OF _ _ w1] by blast
    then show ?thesis by (simp only: n shape append_Cons append_assoc)
  qed
next
  case (JObject ps)
  note prems = JObject.prems and IH = JObject.IH
  show ?case
  proof (cases "ps = []")
    case True
    obtain k where "n = Suc k" using prems True by (cases n) auto
    then show ?thesis using True by (simp add: skip_ws_Cons is_ws_def)
  next
    case False
    let ?ind = "indent @ gap"
    let ?w1 = "line_break gap ?ind" and ?w2 = "line_break gap indent"
    let ?sp = "if gap = [] then [] else '' ''"
    let ?g = "\<lambda>p. QuoteJSONString (fst p) @ CHR '':'' # ?sp @ serialize gap ?ind (snd p)"
    let ?M = "js_join (CHR '','' # ?w1) (map ?g ps) @ ?w2 @ ''}''"
    have ind: "\<forall>c \<in> set ?ind. is_ws c" using prems(1) gap by auto
    have w1: "\<forall>c \<in> set ?w1. is_ws c" using line_break_ws[OF gap ind] .
    have w2: "\<forall>c \<in> set ?w2. is_ws c" using line_break_ws[OF gap prems(1)] .
    have sp: "\<forall>c \<in> set ?sp. is_ws c" by (simp add: is_ws_def)
    have shape: "serialize gap indent (JObject ps) = CHR ''{'' # ?w1 @ ?M"
      using serialize_JObject[OF False] by simp
    have total: "2 * length (CHR ''{'' # ?w1 @ ?M) \<le> n" using prems(3) by (simp only: shape)
    then obtain k where n: "n = Suc k" by (cases n) auto
    have fuel: "2 * length ?M \<le> k" using total n by simp
    have each: "\<And>p m r. p \<in> set ps \<Longrightarrow> 2 * length (serialize gap ?ind (snd p)) \<le> m \<Longrightarrow>
        parse_value m (serialize gap ?ind (snd p) @ r) = Some (snd p, r)"
    proof -
      fix p m r assume p: "p \<in> set ps" and m: "2 * length (serialize gap ?ind (snd p)) \<le> m"
      have "snd p \<in> Basic_BNFs.snds p" by (cases p) simp
      moreover have "distinct_keys (snd p)" using prems(2) p by simp
      ultimately show "parse_value m (serialize gap ?ind (snd p) @ r) = Some (snd p, r)"
        using IH[OF p _ ind _ m] by blast
    qed
    have starts: "\<And>p. p \<in> set ps \<Longrightarrow>
        \<exists>c t. serialize gap ?ind (snd p) = c # t \<and> value_start c"
      using serialize_start by blast
    have "parse_members k (?M @ rest) = Some (ps, rest)"
      using parse_members_join[OF w1 w2 sp False each starts fuel, of rest] by simp
    moreover have "\<exists>c t. ?M = c # t \<and> value_start c"
      using False by (cases ps)
        (simp_all add: QuoteJSONString_def value_start_def js_join_Cons del: js_join.simps)
    moreover have "distinct (map fst ps)" using prems(2) by simp
    ultimately have "parse_value (Suc k) (CHR ''{'' # ?w1 @ ?M @ rest) = Some (JObject ps, rest)"
      using parse_object_text[OF _ _ w1] by blast
    then show ?thesis by (simp only: n shape append_Cons append_assoc)
  qed
qed

theorem JSON_roundtrip:
  assumes "distinct_keys v"
  shows "JSON_parse (JSON_stringify v k) = Some v"
proof -
  let ?gap = "replicate (min k 10) CHR '' ''"
  let ?s = "serialize ?gap [] v"
  have gap: "\<forall>c \<in> set ?gap. is_ws c" by (simp add: is_ws_def)
  obtain c t where s: "?s = c # t" and c: "value_start c" using serialize_start by blast
  have "skip_ws ?s = ?s" using value_start_not_ws[OF c] by (simp add: s skip_ws_Cons)
  moreover have "parse_value (2 * length ?s) (?s @ []) = Some (v, [])"
    using parse_serialize[OF gap _ assms, of "[]" "2 * length ?s" "[]"] by simp
  ultimately show ?thesis
    by (simp add: JSON_parse_def JSON_stringify_def skip_ws_def)
qed

section \<open>formatJson: the round trip\<close>

lemma type_name_inj: "type_name a = type_name b \<Longrightarrow> a = b"
  by (cases a; cases b) simp_all

lemma result_value_inj: "result_value r = result_value r' \<Longrightarrow> r = r'"
proof -
  assume e: "result_value r = result_value r'"
  have "type r = type r'"
    using e type_name_inj by (auto simp: result_value_def split: option.splits)
  moreover have "map JString (records r) = map JString (records r')"
    using e by (auto simp: result_value_def split: option.splits)
  then have "records r = records r'"
    by (simp add: inj_map_eq_map inj_on_def)
  moreover have "error r = error r'"
    using e by (auto simp: result_value_def split: option.splits)
  ultimately show ?thesis by simp
qed

lemma output_value_inj:
  "output_value d rs = output_value d' rs' \<Longrightarrow> d = d' \<and> rs = rs'"
proof -
  assume "output_value d rs = output_value d' rs'"
  then have "d = d'" and "map result_value rs = map result_value rs'"
    by (simp_all add: output_value_def)
  moreover have "inj result_value" using result_value_inj by (rule injI)
  ultimately show ?thesis by (simp add: inj_map_eq_map)
qed

lemma distinct_keys_result: "distinct_keys (result_value r)"
  by (cases "error r") (auto simp: result_value_def)

lemma distinct_keys_output: "distinct_keys (output_value domain results)"
  by (auto simp: output_value_def distinct_keys_result)

text \<open>
  C5: parsing the text of \<open>formatJson\<close> gives the object with the two keys \<open>domain\<close>
  and \<open>results\<close>, the latter the array of the results in input order; each element
  has the keys \<open>type\<close> and \<open>records\<close> and, only when the result has an error, the key
  \<open>error\<close> (no key at all otherwise, not a \<open>null\<close>); and the parsed value determines
  the domain and the results. \<open>formatJson\<close> is a function of its two arguments: the
  same input gives the same text.
\<close>

theorem formatJson_roundtrip:
  "JSON_parse (formatJson domain results)
     = Some (JObject [(''domain'', JString domain),
                      (''results'', JArray (map result_value results))])
   \<and> (\<forall>r \<in> set results.
        result_value r
          = (case error r of
               None \<Rightarrow> JObject [(''type'', JString (type_name (type r))),
                                (''records'', JArray (map JString (records r)))]
             | Some e \<Rightarrow> JObject [(''type'', JString (type_name (type r))),
                                  (''records'', JArray (map JString (records r))),
                                  (''error'', JString e)]))
   \<and> (JSON_parse (formatJson domain results) = JSON_parse (formatJson domain' results')
        \<longrightarrow> domain = domain' \<and> results = results')"
proof (intro conjI ballI impI)
  show p: "\<And>d rs. JSON_parse (formatJson d rs)
     = Some (JObject [(''domain'', JString d), (''results'', JArray (map result_value rs))])"
    using JSON_roundtrip[OF distinct_keys_output]
    by (simp add: formatJson_def output_value_def)
  show "\<And>r. result_value r
          = (case error r of
               None \<Rightarrow> JObject [(''type'', JString (type_name (type r))),
                                (''records'', JArray (map JString (records r)))]
             | Some e \<Rightarrow> JObject [(''type'', JString (type_name (type r))),
                                  (''records'', JArray (map JString (records r))),
                                  (''error'', JString e)])"
    by (simp add: result_value_def split: option.splits)
  assume "JSON_parse (formatJson domain results) = JSON_parse (formatJson domain' results')"
  then have "output_value domain results = output_value domain' results'"
    by (simp add: p output_value_def)
  then show "domain = domain'" and "results = results'"
    using output_value_inj by blast+
qed

theorem formatJson_roundtrip_witness:
  "formatJson ''a.io''
     [\<lparr>type = A, records = [''1.2.3.4''], error = None\<rparr>,
      \<lparr>type = MX, records = [], error = Some ''Timeout''\<rparr>]
     = js_join [CHR 0x0A]
         [''{'',
          ''  '' @ dq @ ''domain'' @ dq @ '': '' @ dq @ ''a.io'' @ dq @ '','',
          ''  '' @ dq @ ''results'' @ dq @ '': ['',
          ''    {'',
          ''      '' @ dq @ ''type'' @ dq @ '': '' @ dq @ ''A'' @ dq @ '','',
          ''      '' @ dq @ ''records'' @ dq @ '': ['',
          ''        '' @ dq @ ''1.2.3.4'' @ dq,
          ''      ]'',
          ''    },'',
          ''    {'',
          ''      '' @ dq @ ''type'' @ dq @ '': '' @ dq @ ''MX'' @ dq @ '','',
          ''      '' @ dq @ ''records'' @ dq @ '': [],'',
          ''      '' @ dq @ ''error'' @ dq @ '': '' @ dq @ ''Timeout'' @ dq,
          ''    }'',
          ''  ]'',
          ''}'']
   \<and> JSON_parse (formatJson ''a.io''
         [\<lparr>type = A, records = [''1.2.3.4''], error = None\<rparr>,
          \<lparr>type = MX, records = [], error = Some ''Timeout''\<rparr>])
     = Some (JObject
         [(''domain'', JString ''a.io''),
          (''results'', JArray
             [JObject [(''type'', JString ''A''), (''records'', JArray [JString ''1.2.3.4''])],
              JObject [(''type'', JString ''MX''), (''records'', JArray []),
                       (''error'', JString ''Timeout'')]])])"
proof -
  have t: "formatJson ''a.io''
     [\<lparr>type = A, records = [''1.2.3.4''], error = None\<rparr>,
      \<lparr>type = MX, records = [], error = Some ''Timeout''\<rparr>]
     = js_join [CHR 0x0A]
         [''{'',
          ''  '' @ dq @ ''domain'' @ dq @ '': '' @ dq @ ''a.io'' @ dq @ '','',
          ''  '' @ dq @ ''results'' @ dq @ '': ['',
          ''    {'',
          ''      '' @ dq @ ''type'' @ dq @ '': '' @ dq @ ''A'' @ dq @ '','',
          ''      '' @ dq @ ''records'' @ dq @ '': ['',
          ''        '' @ dq @ ''1.2.3.4'' @ dq,
          ''      ]'',
          ''    },'',
          ''    {'',
          ''      '' @ dq @ ''type'' @ dq @ '': '' @ dq @ ''MX'' @ dq @ '','',
          ''      '' @ dq @ ''records'' @ dq @ '': [],'',
          ''      '' @ dq @ ''error'' @ dq @ '': '' @ dq @ ''Timeout'' @ dq,
          ''    }'',
          ''  ]'',
          ''}'']"
    by code_simp
  show ?thesis
    using t formatJson_roundtrip [of "''a.io''"
        "[\<lparr>type = A, records = [''1.2.3.4''], error = None\<rparr>,
          \<lparr>type = MX, records = [], error = Some ''Timeout''\<rparr>]"
        "''a.io''"
        "[\<lparr>type = A, records = [''1.2.3.4''], error = None\<rparr>,
          \<lparr>type = MX, records = [], error = Some ''Timeout''\<rparr>]"]
    by (simp add: result_value_def)
qed

end
